theory Spec2Isabelle
  imports Main "HOL-Library.AList"
begin

section \<open>Dates, times and the strptime formats the program uses\<close>

text \<open>
  A naive Python \<^verbatim>\<open>datetime\<close> is modelled as an integer: the number of microseconds since
  midnight of proleptic Gregorian ordinal 0, so that \<open>t div day_us\<close> is \<^verbatim>\<open>date.toordinal()\<close>.
  The integers are unbounded: the year range 1..9999 of \<^verbatim>\<open>datetime\<close> and the OverflowError of
  an oversized \<^verbatim>\<open>timedelta\<close> are not modelled. A \<^verbatim>\<open>time\<close> is the number of microseconds since
  midnight. Strings are ASCII.
\<close>

datatype pyerror = ValueError | ScheduleError | IntervalError | ImportError | IOError
  | TypeError | UnboundLocalError | ActionError | FileNotFoundError | AttributeError

definition sec_us :: int where "sec_us = 1000000"
definition hour_us :: int where "hour_us = 3600 * sec_us"
definition day_us :: int where "day_us = 24 * hour_us"

text \<open>\<^verbatim>\<open>datetime.weekday()\<close>: \<^verbatim>\<open>(toordinal() + 6) % 7\<close>, Monday is 0.\<close>
definition weekday :: "int \<Rightarrow> int" where
  "weekday t = (t div day_us + 6) mod 7"

text \<open>\<^verbatim>\<open>datetime.combine(d, t)\<close> for a datetime \<open>d\<close> at midnight.\<close>
definition combine :: "int \<Rightarrow> int \<Rightarrow> int" where
  "combine d t = d + t"

text \<open>\<^verbatim>\<open>dt.date()\<close> as the datetime of its midnight, and \<^verbatim>\<open>dt.time()\<close>.\<close>
definition date_of :: "int \<Rightarrow> int" where
  "date_of t = t - t mod day_us"
definition time_of :: "int \<Rightarrow> int" where
  "time_of t = t mod day_us"

subsection \<open>datetime.py: ordinals of calendar dates\<close>

definition is_leap :: "int \<Rightarrow> bool" where
  "is_leap y = (y mod 4 = 0 \<and> (y mod 100 \<noteq> 0 \<or> y mod 400 = 0))"

definition days_before_year :: "int \<Rightarrow> int" where
  "days_before_year y = (y - 1) * 365 + (y - 1) div 4 - (y - 1) div 100 + (y - 1) div 400"

definition days_in_month :: "int \<Rightarrow> nat \<Rightarrow> int" where
  "days_in_month y m =
     (if m = 2 \<and> is_leap y then 29
      else [31, 28, 31, 30, 31, 30, 31, 31, 30, 31, 30, 31] ! (m - 1))"

definition days_before_month :: "int \<Rightarrow> nat \<Rightarrow> int" where
  "days_before_month y m =
     [0, 31, 59, 90, 120, 151, 181, 212, 243, 273, 304, 334] ! (m - 1)
       + (if m > 2 \<and> is_leap y then 1 else 0)"

text \<open>\<^verbatim>\<open>_ymd2ord\<close>; the month is in 1..12 wherever it is called.\<close>
definition ymd2ord :: "int \<Rightarrow> nat \<Rightarrow> int \<Rightarrow> int" where
  "ymd2ord y m d = days_before_year y + days_before_month y m + d"

subsection \<open>strptime\<close>

text \<open>
  \<^verbatim>\<open>datetime.strptime(s, fmt)\<close> turns the format into a regular expression, matches it at the
  start of \<open>s\<close> (backtracking, alternatives in order), and raises ValueError when there is
  no match or when the match leaves text over. The directives below are those of the three
  formats the program parses with: \<^verbatim>\<open>'%H:%M'\<close>, \<^verbatim>\<open>'%H:%M:%S'\<close> and \<^verbatim>\<open>'%b %d, %Y'\<close>. White space in
  a format stands for \<^verbatim>\<open>\s+\<close>.
\<close>

datatype directive = DirH | DirM | DirS | Dirb | Dird | DirY | Lit char | Spaces

definition is_digit :: "char \<Rightarrow> bool" where
  "is_digit c = (let n = (of_char c :: nat) in 48 \<le> n \<and> n \<le> 57)"

definition digit_val :: "char \<Rightarrow> nat" where
  "digit_val c = of_char c - 48"

definition is_space :: "char \<Rightarrow> bool" where
  "is_space c = (let n = (of_char c :: nat) in n = 32 \<or> (9 \<le> n \<and> n \<le> 13) \<or> (28 \<le> n \<and> n \<le> 31))"

text \<open>\<^verbatim>\<open>list.index\<close>: the first position of \<open>x\<close>, None for the ValueError.\<close>
fun index_of :: "'a list \<Rightarrow> 'a \<Rightarrow> nat option" where
  "index_of [] x = None"
| "index_of (y # ys) x = (if y = x then Some 0 else map_option Suc (index_of ys x))"

definition lower_char :: "char \<Rightarrow> char" where
  "lower_char c =
     (case index_of ''ABCDEFGHIJKLMNOPQRSTUVWXYZ'' c of
        Some i \<Rightarrow> ''abcdefghijklmnopqrstuvwxyz'' ! i
      | None \<Rightarrow> c)"

text \<open>\<^verbatim>\<open>str.lower()\<close> on ASCII.\<close>
definition lower :: "string \<Rightarrow> string" where
  "lower s = map lower_char s"

definition month_abbr :: "string list" where
  "month_abbr = [''jan'', ''feb'', ''mar'', ''apr'', ''may'', ''jun'',
                 ''jul'', ''aug'', ''sep'', ''oct'', ''nov'', ''dec'']"

text \<open>Two digits \<open>a b\<close> accepted by a test on each, as one alternative of a directive.\<close>
definition two_digits :: "(char \<Rightarrow> bool) \<Rightarrow> (char \<Rightarrow> bool) \<Rightarrow> string \<Rightarrow> (nat \<times> string) list" where
  "two_digits p q s =
     (case s of a # b # r \<Rightarrow> (if p a \<and> q b then [(10 * digit_val a + digit_val b, r)] else [])
              | _ \<Rightarrow> [])"

definition one_digit :: "(char \<Rightarrow> bool) \<Rightarrow> string \<Rightarrow> (nat \<times> string) list" where
  "one_digit p s = (case s of a # r \<Rightarrow> (if p a then [(digit_val a, r)] else []) | _ \<Rightarrow> [])"

definition digit_in :: "string \<Rightarrow> char \<Rightarrow> bool" where
  "digit_in cs c = (c \<in> set cs)"

text \<open>The non-empty runs of white space at the start of \<open>s\<close>, the longest first (greedy).\<close>
fun space_runs :: "string \<Rightarrow> string list" where
  "space_runs [] = []"
| "space_runs (c # cs) = (if is_space c then space_runs cs @ [cs] else [])"

text \<open>
  The ways one directive matches at the start of \<open>s\<close>, in the order the regular expression
  tries them, each with the value read and the text left:
  \<^verbatim>\<open>%H\<close> is \<^verbatim>\<open>2[0-3]|[0-1]\d|\d\<close>, \<^verbatim>\<open>%M\<close> is \<^verbatim>\<open>[0-5]\d|\d\<close>, \<^verbatim>\<open>%S\<close> is \<^verbatim>\<open>6[0-1]|[0-5]\d|\d\<close>,
  \<^verbatim>\<open>%d\<close> is \<^verbatim>\<open>3[0-1]|[1-2]\d|0[1-9]|[1-9]| [1-9]\<close>, \<^verbatim>\<open>%Y\<close> is \<^verbatim>\<open>\d\d\d\d\<close>,
  \<^verbatim>\<open>%b\<close> is the month abbreviations, case ignored.
\<close>
definition alts :: "directive \<Rightarrow> string \<Rightarrow> (nat \<times> string) list" where
  "alts d s =
     (case d of
        DirH \<Rightarrow> two_digits (digit_in ''2'') (digit_in ''0123'') s
                 @ two_digits (digit_in ''01'') is_digit s
                 @ one_digit is_digit s
      | DirM \<Rightarrow> two_digits (digit_in ''012345'') is_digit s @ one_digit is_digit s
      | DirS \<Rightarrow> two_digits (digit_in ''6'') (digit_in ''01'') s
                 @ two_digits (digit_in ''012345'') is_digit s
                 @ one_digit is_digit s
      | Dird \<Rightarrow> two_digits (digit_in ''3'') (digit_in ''01'') s
                 @ two_digits (digit_in ''12'') is_digit s
                 @ two_digits (digit_in ''0'') (digit_in ''123456789'') s
                 @ one_digit (digit_in ''123456789'') s
                 @ (case s of a # r \<Rightarrow> (if a = CHR '' '' then one_digit (digit_in ''123456789'') r else [])
                            | _ \<Rightarrow> [])
      | DirY \<Rightarrow> (case s of a # b # c # e # r \<Rightarrow>
                    (if is_digit a \<and> is_digit b \<and> is_digit c \<and> is_digit e
                     then [(1000 * digit_val a + 100 * digit_val b + 10 * digit_val c + digit_val e, r)]
                     else [])
                  | _ \<Rightarrow> [])
      | Dirb \<Rightarrow> (case index_of month_abbr (lower (take 3 s)) of
                    Some i \<Rightarrow> [(i + 1, drop 3 s)]
                  | None \<Rightarrow> [])
      | Lit c \<Rightarrow> (case s of a # r \<Rightarrow> (if lower_char a = lower_char c then [(0, r)] else []) | _ \<Rightarrow> [])
      | Spaces \<Rightarrow> map (\<lambda>r. (0, r)) (space_runs s))"

fun first_some :: "('a \<Rightarrow> 'b option) \<Rightarrow> 'a list \<Rightarrow> 'b option" where
  "first_some f [] = None"
| "first_some f (x # xs) = (case f x of Some y \<Rightarrow> Some y | None \<Rightarrow> first_some f xs)"

text \<open>
  The first way (depth first) the whole format matches at the start of \<open>s\<close>: the values of
  its directives in order, and the text after the match.
\<close>
fun re_match :: "directive list \<Rightarrow> string \<Rightarrow> (nat list \<times> string) option" where
  "re_match [] s = Some ([], s)"
| "re_match (d # ds) s =
     first_some (\<lambda>(v, r). map_option (\<lambda>(vs, rest). (v # vs, rest)) (re_match ds r)) (alts d s)"

text \<open>The values of the directives, or ValueError (no match, or unconverted data remains).\<close>
definition strptime_fields :: "directive list \<Rightarrow> string \<Rightarrow> pyerror + nat list" where
  "strptime_fields fmt s =
     (case re_match fmt s of
        None \<Rightarrow> Inl ValueError
      | Some (vs, rest) \<Rightarrow> if rest \<noteq> [] then Inl ValueError else Inr vs)"

text \<open>\<^verbatim>\<open>datetime.strptime(s, '%H:%M').time()\<close>\<close>
definition strptime_HM :: "string \<Rightarrow> pyerror + int" where
  "strptime_HM s =
     (case strptime_fields [DirH, Lit CHR '':'', DirM] s of
        Inl e \<Rightarrow> Inl e
      | Inr vs \<Rightarrow> Inr (int (vs ! 0) * hour_us + int (vs ! 2) * 60 * sec_us))"

text \<open>\<^verbatim>\<open>datetime.strptime(s, '%H:%M:%S').time()\<close>; a second of 60 or 61 matches the format and
  is then refused by the datetime constructor.\<close>
definition strptime_HMS :: "string \<Rightarrow> pyerror + int" where
  "strptime_HMS s =
     (case strptime_fields [DirH, Lit CHR '':'', DirM, Lit CHR '':'', DirS] s of
        Inl e \<Rightarrow> Inl e
      | Inr vs \<Rightarrow> if vs ! 4 > 59 then Inl ValueError
                  else Inr (int (vs ! 0) * hour_us + int (vs ! 2) * 60 * sec_us + int (vs ! 4) * sec_us))"

text \<open>\<^verbatim>\<open>datetime.strptime(s, '%b %d, %Y')\<close> as the datetime of that day's midnight; a day that
  the month does not have, and the year 0, are refused by the date constructor.\<close>
definition strptime_bdY :: "string \<Rightarrow> pyerror + int" where
  "strptime_bdY s =
     (case strptime_fields [Dirb, Spaces, Dird, Lit CHR '','', Spaces, DirY] s of
        Inl e \<Rightarrow> Inl e
      | Inr vs \<Rightarrow>
          (let m = vs ! 0; d = int (vs ! 2); y = int (vs ! 5)
           in if y < 1 \<or> d < 1 \<or> d > days_in_month y m then Inl ValueError
              else Inr (ymd2ord y m d * day_us)))"

subsection \<open>common.py: Utils, the clock\<close>

text \<open>
  The clock is read through \<^verbatim>\<open>datetime.now()\<close>; \<open>now\<close> is the instant of the call. Within one
  call of a function of the program every reading of the clock is taken to be the same
  instant.
\<close>

definition two_digit_str :: "int \<Rightarrow> string" where
  "two_digit_str n = [''0123456789'' ! (nat n div 10), ''0123456789'' ! (nat n mod 10)]"

text \<open>\<^verbatim>\<open>Utils.get_current_time()\<close>: \<^verbatim>\<open>datetime.now().strftime("%H:%M:%S")\<close>\<close>
definition get_current_time :: "int \<Rightarrow> string" where
  "get_current_time now =
     (let s = time_of now div sec_us
      in two_digit_str (s div 3600) @ '':'' @ two_digit_str (s div 60 mod 60) @ '':''
           @ two_digit_str (s mod 60))"

text \<open>\<^verbatim>\<open>datetime.strptime(Utils.get_current_datetime(), "%Y-%m-%d %H-%M-%S")\<close>: the format written
  is the format read, so the value is \<open>now\<close> without its microseconds.\<close>
definition current_datetime :: "int \<Rightarrow> int" where
  "current_datetime now = now - now mod sec_us"

text \<open>\<^verbatim>\<open>datetime.strptime(Utils.get_current_date(), "%b %d, %Y")\<close>: likewise, midnight of today.\<close>
definition current_date :: "int \<Rightarrow> int" where
  "current_date now = date_of now"


section \<open>scheduler.py\<close>

subsection \<open>Job\<close>

text \<open>
  The values a job's fields take. \<^verbatim>\<open>job_id\<close> starts as the class \<^verbatim>\<open>str\<close> itself (see
  \<open>Job_init\<close>), \<^verbatim>\<open>unit\<close> as the class \<^verbatim>\<open>int\<close>; \<^verbatim>\<open>with_id\<close> and \<^verbatim>\<open>on\<close> store what they are
  given, a string or (as the one kind of non-string) an integer. A job's function is a
  \<^verbatim>\<open>functools.partial\<close> of a callable of some module; of what the callable does only whether
  it returns or raises is modelled, and its arguments are strings.
\<close>

datatype id_val = StrClass | IdStr string | IdInt int
datatype unit_val = IntClass | Unit string
datatype day_val = DayInt int | DayStr string
datatype outcome = Returns | Raises

record callable =
  c_module :: string
  c_name :: string
  c_outcome :: outcome

record partial =
  func :: callable
  args :: "string list"
  kwargs :: "(string \<times> string) list"

record job =
  job_id :: id_val
  interval :: int
  unit :: unit_val
  job_func :: "partial option"
  at_time :: "string option"
  day_of_week :: "day_val option"
  last_run :: "int option"
  next_run :: "int option"
  scheduler :: bool

text \<open>Truth value of a class object such as \<^verbatim>\<open>str\<close>: every class is truthy.\<close>
definition class_truthy :: bool where
  "class_truthy = True"

text \<open>
  \<^verbatim>\<open>Job.__init__(interval, scheduler)\<close>. The id is \<^verbatim>\<open>str if str else self.generate_id()\<close>:
  the condition is the class \<^verbatim>\<open>str\<close>, so is the value. \<open>uuid\<close> is what \<^verbatim>\<open>generate_id()\<close> would
  return; \<open>sched\<close> tells whether a scheduler was given.
\<close>
definition Job_init :: "string \<Rightarrow> int \<Rightarrow> bool \<Rightarrow> job" where
  "Job_init uuid n sched =
     \<lparr> job_id = (if class_truthy then StrClass else IdStr uuid),
       interval = n, unit = IntClass, job_func = None, at_time = None, day_of_week = None,
       last_run = None, next_run = None, scheduler = sched \<rparr>"

text \<open>\<^verbatim>\<open>Scheduler.every(interval)\<close>\<close>
definition every :: "string \<Rightarrow> int \<Rightarrow> job" where
  "every uuid n = Job_init uuid n True"

definition seconds :: "job \<Rightarrow> job" where "seconds j = j\<lparr>unit := Unit ''seconds''\<rparr>"
definition minutes :: "job \<Rightarrow> job" where "minutes j = j\<lparr>unit := Unit ''minutes''\<rparr>"
definition hours :: "job \<Rightarrow> job" where "hours j = j\<lparr>unit := Unit ''hours''\<rparr>"
definition days :: "job \<Rightarrow> job" where "days j = j\<lparr>unit := Unit ''days''\<rparr>"
definition weeks :: "job \<Rightarrow> job" where "weeks j = j\<lparr>unit := Unit ''weeks''\<rparr>"

definition singular :: "(job \<Rightarrow> job) \<Rightarrow> job \<Rightarrow> pyerror + job" where
  "singular plural j = (if interval j \<noteq> 1 then Inl IntervalError else Inr (plural j))"

definition second :: "job \<Rightarrow> pyerror + job" where "second = singular seconds"
definition minute :: "job \<Rightarrow> pyerror + job" where "minute = singular minutes"
definition hour :: "job \<Rightarrow> pyerror + job" where "hour = singular hours"
definition day :: "job \<Rightarrow> pyerror + job" where "day = singular days"
definition week :: "job \<Rightarrow> pyerror + job" where "week = singular weeks"

definition at :: "string \<Rightarrow> job \<Rightarrow> job" where
  "at time_str j = j\<lparr>at_time := Some time_str\<rparr>"

definition on :: "day_val \<Rightarrow> job \<Rightarrow> job" where
  "on d j = j\<lparr>day_of_week := Some d\<rparr>"

definition with_id :: "id_val \<Rightarrow> job \<Rightarrow> job" where
  "with_id i j = j\<lparr>job_id := i\<rparr>"

text \<open>The run time of the \<^verbatim>\<open>days\<close> branch: \<^verbatim>\<open>at_time\<close> when it is truthy, else the current time,
  both read with the format \<^verbatim>\<open>'%H:%M'\<close>.\<close>
definition days_run_time :: "int \<Rightarrow> job \<Rightarrow> pyerror + int" where
  "days_run_time now j =
     (case at_time j of
        Some s \<Rightarrow> if s \<noteq> [] then strptime_HM s else strptime_HM (get_current_time now)
      | None \<Rightarrow> strptime_HM (get_current_time now))"

definition weekdays :: "string list" where
  "weekdays = [''monday'', ''tuesday'', ''wednesday'', ''thursday'', ''friday'', ''saturday'',
               ''sunday'']"

text \<open>The day index of the \<^verbatim>\<open>weeks\<close> branch.\<close>
definition weeks_day_index :: "job \<Rightarrow> pyerror + int" where
  "weeks_day_index j =
     (case day_of_week j of
        None \<Rightarrow> Inl ValueError
      | Some (DayInt d) \<Rightarrow> Inr d
      | Some (DayStr s) \<Rightarrow>
          (case index_of weekdays (lower s) of None \<Rightarrow> Inl ValueError | Some i \<Rightarrow> Inr (int i)))"

text \<open>\<^verbatim>\<open>Job.calculate_next_run()\<close> at the instant \<open>now\<close>.\<close>
definition calculate_next_run :: "int \<Rightarrow> job \<Rightarrow> pyerror + job" where
  "calculate_next_run now j =
     (if unit j = Unit ''days'' then
        (case days_run_time now j of
           Inl e \<Rightarrow> Inl e
         | Inr run_time \<Rightarrow>
             (let nr = combine (current_date now) run_time;
                  nr' = (if last_run j = None then nr
                         else if current_datetime now > nr then nr + interval j * day_us
                         else nr)
              in Inr (j\<lparr>next_run := Some nr'\<rparr>)))
      else if unit j = Unit ''weeks'' then
        (case weeks_day_index j of
           Inl e \<Rightarrow> Inl e
         | Inr d \<Rightarrow>
             (let nr = current_datetime now + ((d - weekday (current_datetime now)) mod 7) * day_us;
                  nr' = (if current_datetime now > nr then nr + interval j * 7 * day_us else nr)
              in Inr (j\<lparr>next_run := Some nr'\<rparr>)))
      else if unit j = Unit ''hours'' then
        (case (case last_run j of
                 None \<Rightarrow>
                   (case strptime_HMS (get_current_time now) of
                      Inl e \<Rightarrow> Inl e
                    | Inr t \<Rightarrow> Inr (combine (date_of now) t + interval j * hour_us))
               | Some lr \<Rightarrow> Inr (combine (date_of lr) (time_of lr) + interval j * hour_us)) of
           Inl e \<Rightarrow> Inl e
         | Inr nr \<Rightarrow>
             (let nr' = (if nr \<le> now then nr + day_us else nr)
              in Inr (j\<lparr>next_run := Some nr'\<rparr>)))
      else Inl ValueError)"

text \<open>
  \<^verbatim>\<open>Job.run()\<close>: the error raised, if any, and the job as the call leaves it. The function is
  called first; when it raises, nothing after it happens. When it returns, \<^verbatim>\<open>last_run\<close> is
  set before \<^verbatim>\<open>calculate_next_run()\<close> is called.
\<close>
definition run :: "int \<Rightarrow> job \<Rightarrow> pyerror option \<times> job" where
  "run now j =
     (case job_func j of
        None \<Rightarrow> (Some ValueError, j)
      | Some p \<Rightarrow>
          (case c_outcome (func p) of
             Raises \<Rightarrow> (Some ActionError, j)
           | Returns \<Rightarrow>
               (let j1 = j\<lparr>last_run := Some (current_datetime now)\<rparr>
                in case calculate_next_run now j1 of
                     Inl e \<Rightarrow> (Some e, j1)
                   | Inr j2 \<Rightarrow> (None, j2))))"

subsection \<open>The state file\<close>

text \<open>
  One entry of the \<^verbatim>\<open>jobs\<close> list of the state file, with the keys \<^verbatim>\<open>to_dict\<close> writes. The
  timestamps are written with \<^verbatim>\<open>isoformat()\<close> and read with \<^verbatim>\<open>fromisoformat()\<close>, which are
  inverse to each other; the entry holds the instant itself, None for \<^verbatim>\<open>null\<close>.
\<close>
record job_data =
  jd_id :: id_val
  jd_interval :: int
  jd_unit :: unit_val
  jd_at_time :: "string option"
  jd_day_of_week :: "day_val option"
  jd_last_run :: "int option"
  jd_next_run :: "int option"
  jd_action_module :: string
  jd_action_name :: string
  jd_args :: "string list"
  jd_kwargs :: "(string \<times> string) list"

text \<open>The file: absent, not a JSON document (empty or damaged), or \<^verbatim>\<open>{"jobs": [...]}\<close>.\<close>
datatype state_file = NoFile | BadJson | Doc "job_data list"

text \<open>The entries a state file holds.\<close>
definition file_jobs :: "state_file \<Rightarrow> job_data list" where
  "file_jobs f = (case f of Doc jobs_data \<Rightarrow> jobs_data | _ \<Rightarrow> [])"

text \<open>\<^verbatim>\<open>Job.to_dict()\<close>; without a function the names \<^verbatim>\<open>action_module\<close> and \<^verbatim>\<open>action_name\<close> are
  unbound at the return.\<close>
definition to_dict :: "job \<Rightarrow> pyerror + job_data" where
  "to_dict j =
     (case job_func j of
        None \<Rightarrow> Inl UnboundLocalError
      | Some p \<Rightarrow>
          Inr \<lparr> jd_id = job_id j, jd_interval = interval j, jd_unit = unit j,
                jd_at_time = (case at_time j of Some s \<Rightarrow> if s \<noteq> [] then Some s else None
                                               | None \<Rightarrow> None),
                jd_day_of_week = day_of_week j,
                jd_last_run = last_run j, jd_next_run = next_run j,
                jd_action_module = c_module (func p), jd_action_name = c_name (func p),
                jd_args = args p, jd_kwargs = kwargs p \<rparr>)"

text \<open>\<^verbatim>\<open>Job.load_job_data(job_id, file_path)\<close>: the first entry with that id.\<close>
definition load_job_data :: "string \<Rightarrow> state_file \<Rightarrow> job_data option" where
  "load_job_data i f =
     (case f of
        NoFile \<Rightarrow> None
      | BadJson \<Rightarrow> None
      | Doc jobs_data \<Rightarrow> find (\<lambda>d. jd_id d = IdStr i) jobs_data)"

text \<open>
  \<^verbatim>\<open>Job.from_dict(data)\<close>. \<open>resolve\<close> stands for \<^verbatim>\<open>getattr(__import__(module), name)\<close>: the
  callable of that name, or the error of the lookup. The job is built without a scheduler
  and computes \<^verbatim>\<open>next_run\<close> itself only when the entry has none.
\<close>
definition from_dict ::
  "(string \<Rightarrow> string \<Rightarrow> pyerror + callable) \<Rightarrow> string \<Rightarrow> int \<Rightarrow> job_data \<Rightarrow> pyerror + job" where
  "from_dict resolve uuid now data =
     (case resolve (jd_action_module data) (jd_action_name data) of
        Inl e \<Rightarrow> Inl e
      | Inr action \<Rightarrow>
          (let j0 = (Job_init uuid (jd_interval data) False)
                      \<lparr> job_id := jd_id data, unit := jd_unit data,
                        at_time := jd_at_time data, day_of_week := jd_day_of_week data \<rparr>;
               j1 = (case jd_last_run data of Some t \<Rightarrow> j0\<lparr>last_run := Some t\<rparr> | None \<Rightarrow> j0);
               set_func = (\<lambda>j. j\<lparr>job_func :=
                             Some \<lparr> func = action, args = jd_args data, kwargs = jd_kwargs data \<rparr>\<rparr>)
           in case jd_next_run data of
                Some t \<Rightarrow> Inr (set_func (j1\<lparr>next_run := Some t\<rparr>))
              | None \<Rightarrow> (case calculate_next_run now j1 of
                           Inl e \<Rightarrow> Inl e
                         | Inr j2 \<Rightarrow> Inr (set_func j2))))"

text \<open>
  \<^verbatim>\<open>Job.do(job_func, *args, **kwargs)\<close> on the job \<open>self\<close>, with the state file \<open>file\<close> and the
  scheduler's list \<open>sched_jobs\<close>: the job as \<^verbatim>\<open>do\<close> leaves it, and the scheduler's list.
\<close>
definition do ::
  "(string \<Rightarrow> string \<Rightarrow> pyerror + callable) \<Rightarrow> string \<Rightarrow> int \<Rightarrow> state_file \<Rightarrow>
   callable \<Rightarrow> string list \<Rightarrow> (string \<times> string) list \<Rightarrow> job \<Rightarrow> job list \<Rightarrow>
   pyerror + (job \<times> job list)" where
  "do resolve uuid now file f as kws self sched_jobs =
     (case calculate_next_run now (self\<lparr>job_func := Some \<lparr>func = f, args = as, kwargs = kws\<rparr>\<rparr>) of
        Inl e \<Rightarrow> Inl e
      | Inr self' \<Rightarrow>
          if \<not> scheduler self' then Inl ScheduleError
          else (case job_id self' of
                  IdStr i \<Rightarrow>
                    (case load_job_data i file of
                       Some data \<Rightarrow>
                         (case from_dict resolve uuid now data of
                            Inl e \<Rightarrow> Inl e
                          | Inr j \<Rightarrow> Inr (self', sched_jobs @ [j]))
                     | None \<Rightarrow> Inr (self', sched_jobs @ [self']))
                | _ \<Rightarrow> Inl ValueError))"


subsection \<open>Scheduler\<close>

text \<open>
  What the scheduler works on: its list of jobs, the state file, the answers the disk will
  give to the next attempts to write, and a trace of what was done. An attempt to write
  finds too little free space (\<open>NoSpace\<close>), writes the file (\<open>Written\<close>), or fails in
  \<^verbatim>\<open>open\<close> or \<^verbatim>\<open>json.dump\<close> with an IOError (\<open>WriteFailed\<close>: whether the errno is 28, and
  what the failed write left of the file).
\<close>

datatype attempt = NoSpace | Written | WriteFailed bool state_file

datatype event = EvLog id_val | EvCall id_val | EvCritical | EvPopup | EvWrite

record world =
  w_jobs :: "job list"
  w_file :: state_file
  w_disk :: "attempt list"
  w_trace :: "event list"

text \<open>How a call ends: it returns, it raises, or it never returns (\<open>Blocked\<close>: the operator
  does not free disk space within the attempts the world holds).\<close>
datatype status = Completed | Raised pyerror | Blocked

definition emit :: "event list \<Rightarrow> world \<Rightarrow> world" where
  "emit es w = w\<lparr>w_trace := w_trace w @ es\<rparr>"

text \<open>A dict keeps its keys in insertion order; assigning to a key it has keeps the key's
  place. \<open>dict_items\<close> is the dict a comprehension builds from the pairs in order.\<close>
definition dict_items :: "('k \<times> 'v) list \<Rightarrow> ('k \<times> 'v) list" where
  "dict_items kvs = foldl (\<lambda>d (k, v). AList.update k v d) [] kvs"

definition dict_update :: "('k \<times> 'v) list \<Rightarrow> ('k \<times> 'v) list \<Rightarrow> ('k \<times> 'v) list" where
  "dict_update d kvs = foldl (\<lambda>d (k, v). AList.update k v d) d kvs"

text \<open>The results of a comprehension whose body may raise: the first error, or all values.\<close>
fun collect :: "(pyerror + 'a) list \<Rightarrow> pyerror + 'a list" where
  "collect [] = Inr []"
| "collect (Inl e # xs) = Inl e"
| "collect (Inr x # xs) = (case collect xs of Inl e \<Rightarrow> Inl e | Inr ys \<Rightarrow> Inr (x # ys))"

text \<open>\<^verbatim>\<open>existing_jobs_dict\<close> of \<^verbatim>\<open>save_data\<close>: empty when the file is absent or is not JSON.\<close>
definition existing_jobs_dict :: "state_file \<Rightarrow> (id_val \<times> job_data) list" where
  "existing_jobs_dict f =
     (case f of
        Doc existing_jobs \<Rightarrow> dict_items (map (\<lambda>job_data. (jd_id job_data, job_data)) existing_jobs)
      | _ \<Rightarrow> [])"

text \<open>\<^verbatim>\<open>json.dumps\<close> without \<^verbatim>\<open>default\<close> refuses a class object.\<close>
definition serializable :: "job_data \<Rightarrow> bool" where
  "serializable d = (jd_id d \<noteq> StrClass \<and> jd_unit d \<noteq> IntClass)"

text \<open>The \<^verbatim>\<open>while True\<close> loop of \<^verbatim>\<open>save_data\<close>, one attempt of the disk per round.\<close>
fun write_loop :: "job_data list \<Rightarrow> attempt list \<Rightarrow> world \<Rightarrow> status \<times> world" where
  "write_loop out [] w = (Blocked, w\<lparr>w_disk := []\<rparr>)"
| "write_loop out (NoSpace # rest) w = write_loop out rest (emit [EvPopup] w)"
| "write_loop out (Written # rest) w =
     (Completed, emit [EvWrite] (w\<lparr>w_file := Doc out, w_disk := rest\<rparr>))"
| "write_loop out (WriteFailed enospc left # rest) w =
     (if enospc then write_loop out rest (emit [EvCritical, EvPopup] (w\<lparr>w_file := left\<rparr>))
      else (Raised IOError, emit [EvCritical] (w\<lparr>w_file := left, w_disk := rest\<rparr>)))"

text \<open>\<^verbatim>\<open>Scheduler.save_data()\<close>\<close>
definition save_data :: "world \<Rightarrow> status \<times> world" where
  "save_data w =
     (let w1 = (if w_file w = BadJson then emit [EvCritical] w else w);
          existing = existing_jobs_dict (w_file w)
      in case collect (map to_dict (w_jobs w)) of
           Inl e \<Rightarrow> (Raised e, w1)
         | Inr ds \<Rightarrow>
             (let updated_jobs_dict = dict_items (zip (map job_id (w_jobs w)) ds);
                  updated_job_list = map snd (dict_update existing updated_jobs_dict)
              in if \<not> list_all serializable updated_job_list then (Raised TypeError, w1)
                 else write_loop updated_job_list (w_disk w1) w1))"

text \<open>A job is due when it has a \<^verbatim>\<open>next_run\<close> that is at or before the current time.\<close>
definition due :: "int \<Rightarrow> job \<Rightarrow> bool" where
  "due now j = (case next_run j of None \<Rightarrow> False | Some t \<Rightarrow> t \<le> current_datetime now)"

text \<open>
  The loop of \<^verbatim>\<open>run_pending\<close> from the job at index \<open>i\<close>, with \<open>n\<close> jobs to go. \<^verbatim>\<open>run()\<close> changes
  the job where it is in the list. Nothing catches what \<^verbatim>\<open>run()\<close> or \<^verbatim>\<open>save_data()\<close> raise.
\<close>
fun sweep :: "int \<Rightarrow> nat \<Rightarrow> nat \<Rightarrow> world \<Rightarrow> status \<times> world" where
  "sweep now i 0 w = (Completed, w)"
| "sweep now i (Suc n) w =
     (let job = w_jobs w ! i
      in if due now job then
           (let w1 = emit (EvLog (job_id job) # (if job_func job = None then [] else [EvCall (job_id job)])) w
            in case run now job of
                 (Some e, job') \<Rightarrow> (Raised e, w1\<lparr>w_jobs := (w_jobs w1)[i := job']\<rparr>)
               | (None, job') \<Rightarrow>
                   (case save_data (w1\<lparr>w_jobs := (w_jobs w1)[i := job']\<rparr>) of
                      (Completed, w2) \<Rightarrow> sweep now (Suc i) n w2
                    | other \<Rightarrow> other))
         else sweep now (Suc i) n w)"

text \<open>\<^verbatim>\<open>Scheduler.run_pending()\<close>\<close>
definition run_pending :: "int \<Rightarrow> world \<Rightarrow> status \<times> world" where
  "run_pending now w = sweep now 0 (length (w_jobs w)) w"

section \<open>common.py: the record stores\<close>

text \<open>
  A record is a JSON object: its keys in the order of the file, each with a string or
  \<^verbatim>\<open>null\<close> (the values the filters read are of these two kinds). A store is the list of
  records one JSON file holds.
\<close>

datatype jval = JNull | JStr string

type_synonym jrecord = "(string \<times> jval) list"

text \<open>\<^verbatim>\<open>record.get(key)\<close>: None when the key is absent.\<close>
definition pyget :: "jrecord \<Rightarrow> string \<Rightarrow> jval" where
  "pyget r k = (case map_of r k of None \<Rightarrow> JNull | Some v \<Rightarrow> v)"

text \<open>\<^verbatim>\<open>record.get(key, '')\<close>\<close>
definition pyget_str :: "jrecord \<Rightarrow> string \<Rightarrow> jval" where
  "pyget_str r k = (case map_of r k of None \<Rightarrow> JStr [] | Some v \<Rightarrow> v)"

text \<open>Truth value: None and the empty string are false.\<close>
definition truthy :: "jval \<Rightarrow> bool" where
  "truthy v = (case v of JNull \<Rightarrow> False | JStr s \<Rightarrow> s \<noteq> [])"

text \<open>
  The test of the inner loop of \<^verbatim>\<open>write_json\<close>, for a stored record and the new one: a stored
  record that has a link is compared by link, one that has none (absent, None or empty) by
  title.
\<close>
definition same_key :: "jrecord \<Rightarrow> jrecord \<Rightarrow> bool" where
  "same_key new_record record =
     (if truthy (pyget record ''Link for video'')
      then pyget record ''Link for video'' = pyget new_record ''Link for video''
      else pyget record ''Title'' = pyget new_record ''Title'')"

text \<open>
  The inner loop for one new record: the first stored record that passes the test is
  replaced where it stands and the loop ends; None when no stored record passes.
\<close>
fun replace_first :: "jrecord \<Rightarrow> jrecord list \<Rightarrow> jrecord list option" where
  "replace_first new_record [] = None"
| "replace_first new_record (record # data) =
     (if same_key new_record record then Some (new_record # data)
      else map_option ((#) record) (replace_first new_record data))"

text \<open>One round of the outer loop: replaced, or inserted at index 0.\<close>
definition upsert :: "jrecord list \<Rightarrow> jrecord \<Rightarrow> jrecord list" where
  "upsert data new_record =
     (case replace_first new_record data of Some data' \<Rightarrow> data' | None \<Rightarrow> new_record # data)"

text \<open>\<^verbatim>\<open>Jsons.write_json(new_data, file_path)\<close> on a file that holds \<open>data\<close>: what the file holds
  afterwards. A single record given as \<^verbatim>\<open>new_data\<close> is the list of that record.\<close>
definition write_json :: "jrecord list \<Rightarrow> jrecord list \<Rightarrow> jrecord list" where
  "write_json new_data data = foldl upsert data new_data"

section \<open>wp_upload/filters.py\<close>

subsection \<open>Strings\<close>

text \<open>\<^verbatim>\<open>str.replace(old, new)\<close>: the occurrences of \<open>old\<close> from the left, not overlapping; \<open>skip\<close>
  counts the characters of an occurrence still to be passed over.\<close>
fun replace_from :: "nat \<Rightarrow> string \<Rightarrow> string \<Rightarrow> string \<Rightarrow> string" where
  "replace_from skip old new [] = []"
| "replace_from (Suc skip) old new (c # cs) = replace_from skip old new cs"
| "replace_from 0 old new (c # cs) =
     (if take (length old) (c # cs) = old then new @ replace_from (length old - 1) old new cs
      else c # replace_from 0 old new cs)"

definition str_replace :: "string \<Rightarrow> string \<Rightarrow> string \<Rightarrow> string" where
  "str_replace old new s =
     (if old = [] then new @ concat (map (\<lambda>c. c # new) s) else replace_from 0 old new s)"

text \<open>\<^verbatim>\<open>old in s\<close>\<close>
fun contains :: "string \<Rightarrow> string \<Rightarrow> bool" where
  "contains old [] = (old = [])"
| "contains old (c # cs) = (take (length old) (c # cs) = old \<or> contains old cs)"

text \<open>\<^verbatim>\<open>str.strip()\<close>\<close>
definition str_strip :: "string \<Rightarrow> string" where
  "str_strip s = rev (dropWhile is_space (rev (dropWhile is_space s)))"

text \<open>\<^verbatim>\<open>re.sub(r'\s+', ' ', s)\<close>: \<open>in_run\<close> tells that the character before was white space.\<close>
fun collapse_spaces :: "bool \<Rightarrow> string \<Rightarrow> string" where
  "collapse_spaces in_run [] = []"
| "collapse_spaces in_run (c # cs) =
     (if is_space c then (if in_run then collapse_spaces True cs else CHR '' '' # collapse_spaces True cs)
      else c # collapse_spaces False cs)"

text \<open>\<^verbatim>\<open>s.split(', ')\<close>: \<open>cur\<close> is the part being read, reversed.\<close>
fun split_from :: "string \<Rightarrow> string \<Rightarrow> string list" where
  "split_from cur [] = [rev cur]"
| "split_from cur (c # cs) =
     (if take 2 (c # cs) = '', '' then rev cur # split_from [] (drop 1 cs)
      else split_from (c # cur) cs)"

definition split_comma :: "string \<Rightarrow> string list" where
  "split_comma s = split_from [] s"

text \<open>\<^verbatim>\<open>', '.join(parts)\<close>\<close>
fun join_comma :: "string list \<Rightarrow> string" where
  "join_comma [] = []"
| "join_comma [p] = p"
| "join_comma (p # ps) = p @ '', '' @ join_comma ps"

text \<open>A word character of \<^verbatim>\<open>\b\<close>: a letter, a digit or the underscore.\<close>
definition is_word_char :: "char \<Rightarrow> bool" where
  "is_word_char c =
     (let n = (of_char c :: nat)
      in (48 \<le> n \<and> n \<le> 57) \<or> (65 \<le> n \<and> n \<le> 90) \<or> (97 \<le> n \<and> n \<le> 122) \<or> n = 95)"

text \<open>\<^verbatim>\<open>\b\<close> between two positions: a word character on exactly one side; \<open>None\<close> is an end of the
  string.\<close>
definition boundary :: "char option \<Rightarrow> char option \<Rightarrow> bool" where
  "boundary prev nxt =
     ((case prev of None \<Rightarrow> False | Some c \<Rightarrow> is_word_char c)
        \<noteq> (case nxt of None \<Rightarrow> False | Some c \<Rightarrow> is_word_char c))"

definition first_char :: "string \<Rightarrow> char option" where
  "first_char s = (case s of [] \<Rightarrow> None | c # _ \<Rightarrow> Some c)"

text \<open>\<^verbatim>\<open>re.search(r'\b' + re.escape(word) + r'\b', s)\<close> for a word that is not empty; \<open>prev\<close> is
  the character before \<open>s\<close>.\<close>
fun search_word :: "char option \<Rightarrow> string \<Rightarrow> string \<Rightarrow> bool" where
  "search_word prev word [] = False"
| "search_word prev word (c # cs) =
     ((take (length word) (c # cs) = word
         \<and> boundary prev (Some c)
         \<and> boundary (Some (last word)) (first_char (drop (length word) (c # cs))))
      \<or> search_word (Some c) word cs)"

subsection \<open>The stages\<close>

text \<open>\<^verbatim>\<open>record['key'] = value\<close>\<close>
definition pyset :: "string \<Rightarrow> jval \<Rightarrow> jrecord \<Rightarrow> jrecord" where
  "pyset k v r = AList.update k v r"

text \<open>\<^verbatim>\<open>TitleFilters.clean_empty_titles\<close>\<close>
definition clean_empty_titles :: "jrecord list \<Rightarrow> jrecord list" where
  "clean_empty_titles data = filter (\<lambda>record. pyget record ''Title'' \<noteq> JNull) data"

text \<open>\<^verbatim>\<open>ImageFilters.clean_empty_image\<close>\<close>
definition clean_empty_image :: "jrecord list \<Rightarrow> jrecord list" where
  "clean_empty_image data = filter (\<lambda>record. pyget record ''Path image'' \<noteq> JNull) data"

text \<open>
  \<^verbatim>\<open>TitleFilters.clean_duplicates\<close>. \<open>ratio\<close> is \<^verbatim>\<open>fuzz.ratio\<close> of the fuzzywuzzy library, a score
  from 0 to 100. The state of the two loops is the list \<^verbatim>\<open>rows_to_keep\<close> and the dict
  \<^verbatim>\<open>site_rules\<close>; \<open>dup_step\<close> is the body of the inner loop for the pair of indices \<open>(i, j)\<close>,
  and the loops visit the pairs \<open>i < j\<close> in the order of \<open>index_pairs\<close>, whether or not a row
  has been dropped already.
\<close>
type_synonym rules = "((jval \<times> jval) \<times> jval) list"

definition site_rules0 :: rules where
  "site_rules0 =
     [((JStr ''site1'', JStr ''site2''), JStr ''site1''),
      ((JStr ''site3'', JStr ''site4''), JStr ''site3'')]"

definition dup_step ::
  "(jval \<Rightarrow> jval \<Rightarrow> int) \<Rightarrow> jrecord list \<Rightarrow> bool list \<times> rules \<Rightarrow> nat \<times> nat \<Rightarrow> bool list \<times> rules" where
  "dup_step ratio data st ij =
     (let (rows_to_keep, site_rules) = st; (i, j) = ij;
          site_i = pyget (data ! i) ''Site''; title_i = pyget_str (data ! i) ''Title'';
          site_j = pyget (data ! j) ''Site''; title_j = pyget_str (data ! j) ''Title''
      in if ratio title_i title_j \<ge> 99 then
           (if map_of site_rules (site_i, site_j) \<noteq> None \<or> map_of site_rules (site_j, site_i) \<noteq> None
            then
              (let site_to_drop =
                     (case map_of site_rules (site_i, site_j) of
                        Some v \<Rightarrow> v
                      | None \<Rightarrow> (case map_of site_rules (site_j, site_i) of Some v \<Rightarrow> v | None \<Rightarrow> JNull))
               in if site_to_drop = site_i then (rows_to_keep[i := False], site_rules)
                  else if site_to_drop = site_j then (rows_to_keep[j := False], site_rules)
                  else (rows_to_keep, site_rules))
            else (rows_to_keep[j := False], AList.update (site_i, site_j) site_j site_rules))
         else (rows_to_keep, site_rules))"

definition index_pairs :: "nat \<Rightarrow> (nat \<times> nat) list" where
  "index_pairs n = concat (map (\<lambda>i. map (Pair i) [Suc i..<n]) [0..<n])"

text \<open>The state after the loops have visited the pairs \<open>ps\<close>.\<close>
definition dup_run ::
  "(jval \<Rightarrow> jval \<Rightarrow> int) \<Rightarrow> jrecord list \<Rightarrow> (nat \<times> nat) list \<Rightarrow> bool list \<times> rules" where
  "dup_run ratio data ps = foldl (dup_step ratio data) (replicate (length data) True, site_rules0) ps"

text \<open>\<^verbatim>\<open>[record for keep, record in zip(rows_to_keep, data) if keep]\<close>\<close>
definition kept_rows :: "bool list \<Rightarrow> 'a list \<Rightarrow> 'a list" where
  "kept_rows rows_to_keep data = map snd (filter fst (zip rows_to_keep data))"

definition clean_duplicates :: "(jval \<Rightarrow> jval \<Rightarrow> int) \<Rightarrow> jrecord list \<Rightarrow> jrecord list" where
  "clean_duplicates ratio data =
     kept_rows (fst (dup_run ratio data (index_pairs (length data)))) data"

definition filter_words :: "string list" where
  "filter_words = [''word1'', ''word with word1'', ''word2'']"

text \<open>\<^verbatim>\<open>TitleFilters.containing_words\<close>; a title that is None has no \<^verbatim>\<open>lower()\<close>.\<close>
definition containing_words :: "jrecord list \<Rightarrow> pyerror + jrecord list" where
  "containing_words data =
     (case collect
             (map (\<lambda>record.
                     case pyget_str record ''Title'' of
                       JNull \<Rightarrow> Inl AttributeError
                     | JStr title \<Rightarrow>
                         Inr (\<not> list_ex (\<lambda>word. search_word None word (lower title)) filter_words))
                  data) of
        Inl e \<Rightarrow> Inl e
      | Inr rows_to_keep \<Rightarrow> Inr (kept_rows rows_to_keep data))"

text \<open>The characters \<^verbatim>\<open>replace_symb_title\<close> deletes, in its order, up to the ampersand; the four
  that are not ASCII are given by their UTF-8 bytes.\<close>
definition clean_title :: "string \<Rightarrow> string" where
  "clean_title title =
     (let t1 = foldl (\<lambda>t c. str_replace [c] [] t) title ''-|:,.)(#'';
          t2 = str_replace [CHR 0xE2, CHR 0x80, CHR 0x99] [CHR 0x27] t1;
          t3 = str_replace ''&'' ''and'' t2;
          t4 = str_replace ''+'' ''and'' t3;
          t5 = str_replace [CHR 0xE2, CHR 0x80, CHR 0x94] [] t4;
          t6 = str_replace ''?'' [] t5;
          t7 = str_replace [CHR 0xE3, CHR 0x80, CHR 0x91] [] t6;
          t8 = str_replace [CHR 0xE3, CHR 0x80, CHR 0x90] [] t7;
          t9 = str_replace [CHR '' '', CHR '' ''] [CHR '' ''] t8
      in str_strip (collapse_spaces False t9))"

text \<open>\<^verbatim>\<open>TitleFilters.replace_symb_title\<close>\<close>
definition replace_symb_title :: "jrecord list \<Rightarrow> jrecord list" where
  "replace_symb_title data =
     map (\<lambda>record. case map_of record ''Title'' of
                      Some (JStr title) \<Rightarrow> pyset ''Title'' (JStr (clean_title title)) record
                    | _ \<Rightarrow> record) data"

text \<open>The models filter: for a site, the wrong names with the right ones, in the order of the
  file.\<close>
type_synonym models_filter = "(string \<times> (string \<times> string) list) list"

text \<open>The three nested loops of \<^verbatim>\<open>model_in_title\<close> and \<^verbatim>\<open>model_in_models\<close>: \<open>body\<close> is applied
  to every record, for every pair of every site in turn.\<close>
definition for_each_rule ::
  "(string \<Rightarrow> string \<Rightarrow> string \<Rightarrow> 'a \<Rightarrow> 'a) \<Rightarrow> models_filter \<Rightarrow> 'a list \<Rightarrow> 'a list" where
  "for_each_rule body mf data =
     foldl (\<lambda>d (site, models_dict).
              foldl (\<lambda>d (model_key, model_value). map (body site model_key model_value) d)
                    d models_dict)
           data mf"

definition title_rule :: "string \<Rightarrow> string \<Rightarrow> string \<Rightarrow> pyerror + jrecord \<Rightarrow> pyerror + jrecord" where
  "title_rule site model_key model_value rr =
     (case rr of
        Inl e \<Rightarrow> Inl e
      | Inr record \<Rightarrow>
          if pyget record ''Site'' = JStr site then
            (case pyget_str record ''Title'' of
               JNull \<Rightarrow> Inl TypeError
             | JStr title \<Rightarrow>
                 if contains model_key title \<and> str_replace model_key model_value title \<noteq> title
                 then Inr (pyset ''Title'' (JStr (str_replace model_key model_value title)) record)
                 else Inr record)
          else Inr record)"

text \<open>\<^verbatim>\<open>TitleFilters.model_in_title\<close>; \<^verbatim>\<open>model_key in title\<close> raises for a title that is None.\<close>
definition model_in_title :: "models_filter \<Rightarrow> jrecord list \<Rightarrow> pyerror + jrecord list" where
  "model_in_title mf data = collect (for_each_rule title_rule mf (map Inr data))"

definition models_rule :: "string \<Rightarrow> string \<Rightarrow> string \<Rightarrow> jrecord \<Rightarrow> jrecord" where
  "models_rule site model_key model_value record =
     (if pyget record ''Site'' = JStr site then
        (case pyget_str record ''Models'' of
           JStr original_models \<Rightarrow>
             (let updated_models =
                    join_comma (map (\<lambda>name. if str_strip name = model_key then model_value else name)
                                    (split_comma original_models))
              in if original_models \<noteq> updated_models
                 then pyset ''Models'' (JStr updated_models) record else record)
         | JNull \<Rightarrow> record)
      else record)"

text \<open>\<^verbatim>\<open>ModelsFilters.model_in_models\<close>\<close>
definition model_in_models :: "models_filter \<Rightarrow> jrecord list \<Rightarrow> jrecord list" where
  "model_in_models mf data =
     map (\<lambda>record. case pyget record ''Models'' of
                      JStr m \<Rightarrow> pyset ''Models'' (JStr (str_strip (str_replace ''.'' [] m))) record
                    | JNull \<Rightarrow> record)
         (for_each_rule models_rule mf data)"

text \<open>\<^verbatim>\<open>f"{site}"\<close>\<close>
definition format_val :: "jval \<Rightarrow> string" where
  "format_val v = (case v of JNull \<Rightarrow> ''None'' | JStr s \<Rightarrow> s)"

text \<open>\<^verbatim>\<open>TitleFilters.title_equal_models\<close>\<close>
definition title_equal_models :: "jrecord list \<Rightarrow> jrecord list" where
  "title_equal_models data =
     map (\<lambda>record.
            let title = pyget record ''Title''; models = pyget record ''Models'';
                site = pyget record ''Site''
            in if truthy title \<and> truthy models \<and> title = models
               then pyset ''Title'' (JStr (format_val title @ '' is at '' @ format_val site)) record
               else record) data"

text \<open>
  \<^verbatim>\<open>DateFilters.clean_older_than_3_days\<close>. \<open>today\<close> is the current date (its midnight),
  \<open>uploaded\<close> what \<^verbatim>\<open>read_json\<close> gives for the upload files of the five days before, one after
  the other: the records of the file, or the error of a file that is not there. The files
  are read for every record that is not dropped for its date.
\<close>
definition too_old :: "int \<Rightarrow> jrecord \<Rightarrow> bool" where
  "too_old today record =
     (case pyget_str record ''Date'' of
        JNull \<Rightarrow> False
      | JStr date_i \<Rightarrow>
          if date_i \<noteq> [] then
            (case strptime_bdY date_i of
               Inl e \<Rightarrow> False
             | Inr date_i_obj \<Rightarrow> date_i_obj < today - 3 * day_us)
          else False)"

text \<open>The loop over the upload files for one title: whether a title of some file scores 90
  or more.\<close>
fun similar_uploaded ::
  "(jval \<Rightarrow> jval \<Rightarrow> int) \<Rightarrow> jval \<Rightarrow> (pyerror + jrecord list) list \<Rightarrow> pyerror + bool" where
  "similar_uploaded ratio title_i [] = Inr False"
| "similar_uploaded ratio title_i (Inl e # files) = Inl e"
| "similar_uploaded ratio title_i (Inr uploaded_data # files) =
     (case similar_uploaded ratio title_i files of
        Inl e \<Rightarrow> Inl e
      | Inr found \<Rightarrow>
          Inr (list_ex (\<lambda>uploaded_record. ratio title_i (pyget_str uploaded_record ''Title'') \<ge> 90)
                       uploaded_data \<or> found))"

definition clean_older_than_3_days ::
  "(jval \<Rightarrow> jval \<Rightarrow> int) \<Rightarrow> int \<Rightarrow> (pyerror + jrecord list) list \<Rightarrow> jrecord list \<Rightarrow>
   pyerror + jrecord list" where
  "clean_older_than_3_days ratio today uploaded data =
     (case collect
             (map (\<lambda>record.
                     if too_old today record then Inr False
                     else (case similar_uploaded ratio (pyget record ''Title'') uploaded of
                             Inl e \<Rightarrow> Inl e
                           | Inr found \<Rightarrow> Inr (\<not> found)))
                  data) of
        Inl e \<Rightarrow> Inl e
      | Inr rows_to_keep \<Rightarrow> Inr (kept_rows rows_to_keep data))"

text \<open>\<^verbatim>\<open>Jsons.load_promo_link(site)\<close> on the promo links of the file: keys compared in lower
  case, the last of equal keys winning.\<close>
definition load_promo_link :: "(string \<times> jval) list \<Rightarrow> string \<Rightarrow> jval" where
  "load_promo_link links site =
     (case map_of (rev (map (\<lambda>(key, v). (lower key, v)) links)) (lower site) of
        None \<Rightarrow> JNull
      | Some v \<Rightarrow> v)"

text \<open>\<^verbatim>\<open>PromoLinks.set_promo_links\<close>; \<^verbatim>\<open>str(None)\<close> is \<^verbatim>\<open>'None'\<close>.\<close>
definition set_promo_links :: "(string \<times> jval) list \<Rightarrow> jrecord list \<Rightarrow> jrecord list" where
  "set_promo_links links data =
     map (\<lambda>record.
            let site = lower (format_val (pyget_str record ''Site''));
                promo_link = load_promo_link links site
            in if truthy promo_link then pyset ''Link for promo'' (JStr (format_val promo_link)) record
               else pyset ''Link for promo'' JNull record) data"

subsection \<open>The pipeline\<close>

text \<open>What the filters read besides the records.\<close>
record env =
  env_ratio :: "jval \<Rightarrow> jval \<Rightarrow> int"
  env_today :: int
  env_uploaded :: "(pyerror + jrecord list) list"
  env_models :: models_filter
  env_promo_links :: "(string \<times> jval) list"

definition bind :: "pyerror + 'a \<Rightarrow> ('a \<Rightarrow> pyerror + 'b) \<Rightarrow> pyerror + 'b" where
  "bind x f = (case x of Inl e \<Rightarrow> Inl e | Inr v \<Rightarrow> f v)"

text \<open>\<^verbatim>\<open>Filters.ordered_filters\<close>\<close>
definition ordered_filters :: "env \<Rightarrow> jrecord list \<Rightarrow> pyerror + jrecord list" where
  "ordered_filters e data =
     bind (containing_words
             (clean_duplicates (env_ratio e) (clean_empty_image (clean_empty_titles data))))
       (\<lambda>d4. bind (model_in_title (env_models e) (replace_symb_title d4))
       (\<lambda>d6. bind (clean_older_than_3_days (env_ratio e) (env_today e) (env_uploaded e)
                     (title_equal_models (model_in_models (env_models e) d6)))
       (\<lambda>d9. Inr (set_promo_links (env_promo_links e) d9))))"

text \<open>
  \<^verbatim>\<open>Filters.apply_filters\<close> on the daily store and the filtered store as \<^verbatim>\<open>read_json\<close> gives
  them (None for a file that holds \<^verbatim>\<open>null\<close>): the error raised, or what is written to the
  filtered store, None when nothing is written.
\<close>
definition apply_filters ::
  "env \<Rightarrow> jrecord list option \<Rightarrow> jrecord list option \<Rightarrow> pyerror + jrecord list option" where
  "apply_filters e daily_scrapped filtered =
     (case (daily_scrapped, filtered) of
        (Some daily, Some flt) \<Rightarrow>
          (let filtered_titles = set (map (\<lambda>item. pyget item ''Link for video'') flt);
               new_data = filter (\<lambda>item. pyget item ''Link for video'' \<notin> filtered_titles \<and> item \<noteq> [])
                                 daily
           in if new_data \<noteq> [] then
                (case ordered_filters e new_data of
                   Inl err \<Rightarrow> Inl err
                 | Inr filtered_data \<Rightarrow> Inr (Some (write_json filtered_data flt)))
              else Inr None)
      | _ \<Rightarrow> Inr None)"

text \<open>The filtered store after a call that returned.\<close>
definition store_after :: "jrecord list \<Rightarrow> jrecord list option \<Rightarrow> jrecord list" where
  "store_after flt written = (case written of None \<Rightarrow> flt | Some data \<Rightarrow> data)"

section \<open>Example inputs\<close>

text \<open>A Monday, 13:00: ordinal 738886 is 2024-01-01.\<close>
definition monday_1pm :: int where
  "monday_1pm = 738886 * day_us + 13 * hour_us"

definition scrape_upload :: callable where
  "scrape_upload = \<lparr>c_module = ''jobs'', c_name = ''scrape_upload'', c_outcome = Returns\<rparr>"

definition failing_action :: callable where
  "failing_action = \<lparr>c_module = ''jobs'', c_name = ''failing_action'', c_outcome = Raises\<rparr>"

text \<open>An hourly job with the given id and function that was due at noon.\<close>
definition hourly_job :: "string \<Rightarrow> callable \<Rightarrow> job" where
  "hourly_job i f =
     \<lparr> job_id = IdStr i, interval = 1, unit = Unit ''hours'',
       job_func = Some \<lparr>func = f, args = [], kwargs = []\<rparr>, at_time = None, day_of_week = None,
       last_run = None, next_run = Some (738886 * day_us + 12 * hour_us), scheduler = True \<rparr>"

text \<open>Three due jobs, the second of which raises; no state file yet; every write succeeds.\<close>
definition three_jobs :: world where
  "three_jobs =
     \<lparr> w_jobs = [hourly_job ''a'' scrape_upload, hourly_job ''b'' failing_action,
                 hourly_job ''c'' scrape_upload],
       w_file = NoFile, w_disk = [Written, Written, Written], w_trace = [] \<rparr>"

text \<open>A state file with an entry of another run and an outdated entry of job \<^verbatim>\<open>a\<close>; the disk is
  full at the first attempt to write.\<close>
definition other_entry :: job_data where
  "other_entry =
     \<lparr> jd_id = IdStr ''Sites at 12:00'', jd_interval = 1, jd_unit = Unit ''days'',
       jd_at_time = Some ''12:10'', jd_day_of_week = None,
       jd_last_run = None, jd_next_run = Some (738886 * day_us + 12 * hour_us + 10 * 60 * sec_us),
       jd_action_module = ''jobs'', jd_action_name = ''scrape_upload'',
       jd_args = [''Sites at 12:00''], jd_kwargs = [] \<rparr>"

definition stale_entry :: job_data where
  "stale_entry =
     \<lparr> jd_id = IdStr ''a'', jd_interval = 1, jd_unit = Unit ''hours'',
       jd_at_time = None, jd_day_of_week = None,
       jd_last_run = None, jd_next_run = Some (738885 * day_us),
       jd_action_module = ''jobs'', jd_action_name = ''scrape_upload'',
       jd_args = [], jd_kwargs = [] \<rparr>"

definition saving_world :: world where
  "saving_world =
     \<lparr> w_jobs = [hourly_job ''a'' scrape_upload], w_file = Doc [other_entry, stale_entry],
       w_disk = [NoSpace, Written], w_trace = [] \<rparr>"

text \<open>A store with a record that has no link and one that has; a new record with the title
  of the first and the link of the second.\<close>
definition unlinked :: jrecord where
  "unlinked = [(''Site'', JStr ''site1''), (''Title'', JStr ''Foo''), (''Link for video'', JNull)]"

definition linked :: jrecord where
  "linked = [(''Site'', JStr ''site1''), (''Title'', JStr ''Bar''),
             (''Link for video'', JStr ''https://site1/v/1'')]"

definition relinked :: jrecord where
  "relinked = [(''Site'', JStr ''site1''), (''Title'', JStr ''Foo''),
               (''Link for video'', JStr ''https://site1/v/1'')]"

definition other_linked :: jrecord where
  "other_linked = [(''Site'', JStr ''site2''), (''Title'', JStr ''Baz''),
                   (''Link for video'', JStr ''https://site2/v/7'')]"




definition score_99 :: "jval \<Rightarrow> jval \<Rightarrow> int" where
  "score_99 a b = 99"

text \<open>Records dated four and two days before 2024-01-01, one with a date that does not
  parse and one without a date, given as the current date's midnight \<open>jan_1\<close>; five upload
  files without records, and five of which one holds a record.\<close>
definition jan_1 :: int where
  "jan_1 = 738886 * day_us"

definition dated :: "string \<Rightarrow> string \<Rightarrow> jrecord" where
  "dated title date = [(''Site'', JStr ''site1''), (''Title'', JStr title), (''Date'', JStr date)]"

definition undated :: jrecord where
  "undated = [(''Site'', JStr ''site1''), (''Title'', JStr ''No date'')]"

definition no_uploads :: "(pyerror + jrecord list) list" where
  "no_uploads = [Inr [], Inr [], Inr [], Inr [], Inr []]"

definition one_upload :: "(pyerror + jrecord list) list" where
  "one_upload = [Inr [], Inr [], Inr [[(''Site'', JStr ''site1''), (''Title'', JStr ''Seen'')]], Inr [], Inr []]"

text \<open>Five upload files without records, the second of which is not there.\<close>
definition missing_upload :: "(pyerror + jrecord list) list" where
  "missing_upload = [Inr [], Inl FileNotFoundError, Inr [], Inr [], Inr []]"

text \<open>
  Two records of different sites and links with the same title, and what the filters read:
  no upload history, no models filter, no promo links. For equal strings \<^verbatim>\<open>fuzz.ratio\<close> is
  100, which is all \<open>equal_score\<close> is used for; its 0 stands for a score below 90.
\<close>
definition equal_score :: "jval \<Rightarrow> jval \<Rightarrow> int" where
  "equal_score a b = (if a = b \<and> a \<noteq> JNull then 100 else 0)"

definition video_1 :: jrecord where
  "video_1 = [(''Site'', JStr ''site1''), (''Title'', JStr ''Same video''),
              (''Path image'', JStr ''/img/1.jpg''), (''Link for video'', JStr ''https://site1/v/1'')]"

definition video_2 :: jrecord where
  "video_2 = [(''Site'', JStr ''site3''), (''Title'', JStr ''Same video''),
              (''Path image'', JStr ''/img/2.jpg''), (''Link for video'', JStr ''https://site3/v/2'')]"

definition plain_env :: env where
  "plain_env = \<lparr> env_ratio = equal_score, env_today = jan_1, env_uploaded = no_uploads,
                  env_models = [], env_promo_links = [] \<rparr>"

section \<open>Properties of the strptime formats\<close>

lemma first_some_SomeD: "first_some f xs = Some y \<Longrightarrow> \<exists>x \<in> set xs. f x = Some y"
  by (induction xs) (auto split: option.splits)

lemma digit_cases:
  assumes "(k::nat) < 10"
  obtains "k = 0" | "k = 1" | "k = 2" | "k = 3" | "k = 4" | "k = 5" | "k = 6" | "k = 7"
    | "k = 8" | "k = 9"
  using assms by atomize_elim arith

lemma is_digit_digit: "(k::nat) < 10 \<Longrightarrow> is_digit (''0123456789'' ! k)"
  by (erule digit_cases) (simp_all add: is_digit_def)

lemma digit_val_digit: "(k::nat) < 10 \<Longrightarrow> digit_val (''0123456789'' ! k) = k"
  by (erule digit_cases) (simp_all add: digit_val_def)

lemma of_char_digit: "(k::nat) < 10 \<Longrightarrow> of_char (''0123456789'' ! k) - 48 = k"
  by (erule digit_cases) simp_all

lemma two_digit_str_nat:
  "two_digit_str (int n) = [''0123456789'' ! (n div 10), ''0123456789'' ! (n mod 10)]"
  by (simp add: two_digit_str_def)

lemma alts_H:
  assumes "(h::nat) < 24"
  shows "\<exists>others. alts DirH (two_digit_str (int h) @ r) = (h, r) # others"
proof -
  have a: "h div 10 < 3" and b: "h mod 10 < 10" using assms by auto
  have c: "h div 10 = 2 \<Longrightarrow> h mod 10 < 4" using assms by presburger
  have e: "10 * (h div 10) + h mod 10 = h" by simp
  from a consider "h div 10 = 0" | "h div 10 = 1" | "h div 10 = 2" by linarith
  then show ?thesis
  proof cases
    case 1
    then show ?thesis using e b
      by (simp add: two_digit_str_nat alts_def two_digits_def digit_in_def is_digit_digit of_char_digit digit_val_def)
  next
    case 2
    then show ?thesis using e b
      by (simp add: two_digit_str_nat alts_def two_digits_def digit_in_def is_digit_digit of_char_digit digit_val_def)
  next
    case 3
    with c have "h mod 10 < 4" by simp
    then consider "h mod 10 = 0" | "h mod 10 = 1" | "h mod 10 = 2" | "h mod 10 = 3" by linarith
    then show ?thesis using 3 e
      by cases (simp_all add: two_digit_str_def alts_def two_digits_def digit_in_def digit_val_def)
  qed
qed

lemma alts_M:
  assumes "(m::nat) < 60"
  shows "\<exists>others. alts DirM (two_digit_str (int m) @ r) = (m, r) # others"
proof -
  have a: "m div 10 < 6" and b: "m mod 10 < 10" using assms by auto
  have e: "10 * (m div 10) + m mod 10 = m" by simp
  from a consider "m div 10 = 0" | "m div 10 = 1" | "m div 10 = 2" | "m div 10 = 3"
    | "m div 10 = 4" | "m div 10 = 5" by linarith
  then show ?thesis using e b
    by cases (simp_all add: two_digit_str_nat alts_def two_digits_def digit_in_def is_digit_digit of_char_digit digit_val_def)
qed

lemma alts_S:
  assumes "(m::nat) < 60"
  shows "\<exists>others. alts DirS (two_digit_str (int m) @ r) = (m, r) # others"
proof -
  have a: "m div 10 < 6" and b: "m mod 10 < 10" using assms by auto
  have e: "10 * (m div 10) + m mod 10 = m" by simp
  from a consider "m div 10 = 0" | "m div 10 = 1" | "m div 10 = 2" | "m div 10 = 3"
    | "m div 10 = 4" | "m div 10 = 5" by linarith
  then show ?thesis using e b
    by cases (simp_all add: two_digit_str_nat alts_def two_digits_def digit_in_def is_digit_digit of_char_digit digit_val_def)
qed


lemma re_match_hd:
  assumes "alts d s = (v, r) # others" and "re_match ds r = Some (vs, rest)"
  shows "re_match (d # ds) s = Some (v # vs, rest)"
  using assms by simp

lemma alts_Lit: "alts (Lit c) (c # r) = [(0, r)]"
  by (simp add: alts_def)

lemma tod_bounds:
  "0 \<le> time_of now div sec_us" "time_of now div sec_us < 86400"
proof -
  have "0 \<le> now mod 86400000000" "now mod 86400000000 < 86400000000" by simp_all
  then show "0 \<le> time_of now div sec_us" "time_of now div sec_us < 86400"
    by (simp_all add: time_of_def day_us_def hour_us_def sec_us_def)
qed

lemma strptime_HMS_current:
  "strptime_HMS (get_current_time now) = Inr (time_of now div sec_us * sec_us)"
proof -
  define s where "s = nat (time_of now div sec_us)"
  have s: "time_of now div sec_us = int s" "s < 86400"
    using tod_bounds [of now] by (simp_all add: s_def)
  define h m c where "h = s div 3600" and "m = s div 60 mod 60" and "c = s mod 60"
  have hb: "h < 24" and mb: "m < 60" and cb: "c < 60"
    using s(2) by (simp_all add: h_def m_def c_def less_mult_imp_div_less)
  have str: "get_current_time now
      = two_digit_str (int h) @ CHR '':'' # two_digit_str (int m) @ CHR '':'' # two_digit_str (int c) @ []"
    by (simp add: get_current_time_def Let_def s(1) h_def m_def c_def zdiv_int zmod_int)
  obtain o1 where a1: "alts DirS (two_digit_str (int c) @ []) = (c, []) # o1"
    using alts_S [OF cb] by blast
  have r1: "re_match [DirS] (two_digit_str (int c) @ []) = Some ([c], [])"
    by (rule re_match_hd [OF a1]) simp
  have r2: "re_match [Lit CHR '':'', DirS] (CHR '':'' # two_digit_str (int c) @ []) = Some ([0, c], [])"
    by (rule re_match_hd [OF _ r1]) (rule alts_Lit)
  obtain o2 where a2: "alts DirM (two_digit_str (int m) @ CHR '':'' # two_digit_str (int c) @ [])
      = (m, CHR '':'' # two_digit_str (int c) @ []) # o2"
    using alts_M [OF mb] by blast
  note r3 = re_match_hd [OF a2 r2]
  note r4 = re_match_hd [OF alts_Lit r3]
  obtain o3 where a3: "alts DirH (get_current_time now)
      = (h, CHR '':'' # two_digit_str (int m) @ CHR '':'' # two_digit_str (int c) @ []) # o3"
    unfolding str using alts_H [OF hb] by blast
  note r5 = re_match_hd [OF a3 r4]
  have "s div 60 div 60 = s div 3600" by (simp add: div_mult2_eq)
  then have "s div 60 = h * 60 + m" unfolding h_def m_def by (metis div_mult_mod_eq)
  moreover have "s = s div 60 * 60 + c" unfolding c_def by simp
  ultimately have "s = h * 3600 + m * 60 + c" by simp
  then have "int s * sec_us = int h * hour_us + int m * 60 * sec_us + int c * sec_us"
    by (simp add: hour_us_def algebra_simps)
  then show ?thesis
    using cb by (simp add: strptime_HMS_def strptime_fields_def r5 s(1) del: re_match.simps)
qed

lemma alts_consumes:
  "(v, r) \<in> set (alts d s) \<Longrightarrow> d \<in> {DirH, DirM} \<union> range Lit \<Longrightarrow> length s \<le> length r + 2"
proof -
  assume a: "(v, r) \<in> set (alts d s)" and d: "d \<in> {DirH, DirM} \<union> range Lit"
  from d consider "d = DirH" | "d = DirM" | c where "d = Lit c" by auto
  then show ?thesis
  proof cases
    case 1
    with a show ?thesis
      by (cases s; cases "tl s") (auto simp: alts_def two_digits_def one_digit_def split: if_splits)
  next
    case 2
    with a show ?thesis
      by (cases s; cases "tl s") (auto simp: alts_def two_digits_def one_digit_def split: if_splits)
  next
    case 3
    with a show ?thesis
      by (cases s) (auto simp: alts_def split: if_splits)
  qed
qed

lemma re_match_consumes:
  "re_match ds s = Some (vs, rest) \<Longrightarrow> set ds \<subseteq> {DirH, DirM} \<union> range Lit
     \<Longrightarrow> length s \<le> length rest + 2 * length ds"
proof (induction ds arbitrary: s vs)
  case Nil
  then show ?case by simp
next
  case (Cons d ds)
  from Cons.prems(1) obtain v r vs' where a: "(v, r) \<in> set (alts d s)"
      and m: "re_match ds r = Some (vs', rest)"
    by (auto dest!: first_some_SomeD)
  have "length r \<le> length rest + 2 * length ds"
    using Cons.IH [OF m] Cons.prems(2) by simp
  moreover have "length s \<le> length r + 2"
    using alts_consumes [OF a] Cons.prems(2) by auto
  ultimately show ?case by simp
qed

lemma strptime_HM_length:
  assumes "strptime_HM s = Inr t"
  shows "length s \<le> 6"
proof (cases "re_match [DirH, Lit CHR '':'', DirM] s")
  case None
  with assms show ?thesis by (simp add: strptime_HM_def strptime_fields_def)
next
  case (Some p)
  obtain vs rest where p: "p = (vs, rest)" by (cases p)
  with Some assms have "rest = []"
    by (simp add: strptime_HM_def strptime_fields_def split: if_splits)
  with re_match_consumes [OF Some [unfolded p]] show ?thesis by simp
qed

lemma length_get_current_time: "length (get_current_time now) = 8"
  by (simp add: get_current_time_def Let_def two_digit_str_def)

lemma strptime_HM_ValueError: "strptime_HM s = Inl e \<Longrightarrow> e = ValueError"
  by (simp add: strptime_HM_def strptime_fields_def del: re_match.simps
           split: option.splits prod.splits if_splits)

lemma strptime_HM_current: "strptime_HM (get_current_time now) = Inl ValueError"
proof (cases "strptime_HM (get_current_time now)")
  case (Inl e)
  then show ?thesis using strptime_HM_ValueError by simp
next
  case (Inr t)
  from strptime_HM_length [OF Inr] show ?thesis
    by (simp add: length_get_current_time)
qed

section \<open>scheduler.py: next run times\<close>

lemma calculate_next_run_frame:
  "calculate_next_run now j = Inr j' \<Longrightarrow> j' = j\<lparr>next_run := next_run j'\<rparr>"
  by (auto simp: calculate_next_run_def Let_def split: if_splits sum.splits option.splits)

lemma days_run_time_unset:
  "at_time j = None \<or> at_time j = Some [] \<Longrightarrow> days_run_time now j = Inl ValueError"
  by (auto simp: days_run_time_def strptime_HM_current)

text \<open>
  The parts of the \<^verbatim>\<open>days\<close> branch that hold: with a readable \<^verbatim>\<open>at_time\<close> the next run is today's
  date combined with it, moved on by \<^verbatim>\<open>interval\<close> days only when \<^verbatim>\<open>last_run\<close> is set and the current
  time is past it.
\<close>
lemma days_with_at_time:
  assumes "unit j = Unit ''days''" "at_time j = Some s" "s \<noteq> []" "strptime_HM s = Inr t"
  shows "calculate_next_run now j =
           Inr (j\<lparr>next_run := Some (if last_run j \<noteq> None \<and> current_datetime now > current_date now + t
                                     then current_date now + t + interval j * day_us
                                     else current_date now + t)\<rparr>)"
  using assms by (simp add: calculate_next_run_def days_run_time_def combine_def Let_def)

text \<open>
  C7 (the code departs from the claim). For unit \<^verbatim>\<open>days\<close> without \<^verbatim>\<open>at_time\<close> the claim has
  \<^verbatim>\<open>calculate_next_run()\<close> use the current time and succeed. The code reads the current time,
  written as \<^verbatim>\<open>%H:%M:%S\<close> by \<^verbatim>\<open>Utils.get_current_time()\<close>, with the format \<^verbatim>\<open>%H:%M\<close>: the seconds are
  left over and \<^verbatim>\<open>strptime\<close> raises ValueError, at every instant, for every job built by
  \<^verbatim>\<open>every(n).days\<close> with no call of \<^verbatim>\<open>at\<close>.
\<close>
theorem days_without_at_time_raises:
  "calculate_next_run now (days (every uuid n)) = Inl ValueError"
  by (simp add: calculate_next_run_def days_run_time_unset days_def every_def Job_init_def)

text \<open>
  C9 (the code departs from the claim). A job built without \<^verbatim>\<open>with_id\<close> is claimed to get a
  generated string id and to be registered by \<^verbatim>\<open>do()\<close>. In the code the id of such a job is the
  class \<^verbatim>\<open>str\<close> itself, \<^verbatim>\<open>generate_id()\<close> is never called, and \<^verbatim>\<open>do()\<close> raises ValueError
  ("job_id must be a string"): here for \<^verbatim>\<open>every(n).hours.do(f)\<close>, whatever the state file holds.
\<close>
theorem generated_id_is_not_a_string:
  "job_id (every uuid n) = StrClass \<and>
   do resolve uuid now file f as kws (hours (every uuid n)) sched_jobs = Inl ValueError"
  by (simp add: do_def calculate_next_run_def hours_def every_def Job_init_def class_truthy_def
        strptime_HMS_current Let_def)

lemma mod_bounds_us:
  "0 \<le> now mod sec_us" "now mod sec_us < sec_us" "0 \<le> now mod day_us" "now mod day_us < day_us"
  by (simp_all add: sec_us_def day_us_def hour_us_def)

lemma current_datetime_le: "current_datetime now \<le> now" "now < current_datetime now + sec_us"
  using mod_bounds_us [of now] by (simp_all add: current_datetime_def)

lemma strptime_HM_nonneg: "strptime_HM s = Inr t \<Longrightarrow> 0 \<le> t"
  by (auto simp: strptime_HM_def hour_us_def sec_us_def split: sum.splits)

lemma trunc_seconds: "date_of now + time_of now div sec_us * sec_us = current_datetime now"
proof -
  have "sec_us dvd day_us" by (simp add: day_us_def hour_us_def sec_us_def)
  then have "now mod day_us mod sec_us = now mod sec_us" by (rule mod_mod_cancel)
  then have "now mod day_us div sec_us * sec_us = now mod day_us - now mod sec_us"
    by (metis minus_mod_eq_div_mult)
  then show ?thesis by (simp add: date_of_def time_of_def current_datetime_def)
qed

lemma strptime_HM_seconds: "strptime_HM s = Inr t \<Longrightarrow> sec_us dvd t"
  by (auto simp: strptime_HM_def sec_us_def hour_us_def split: sum.splits)

lemma current_datetime_seconds: "sec_us dvd current_datetime now"
  by (simp add: current_datetime_def minus_mod_eq_mult_div)

lemma current_date_seconds: "sec_us dvd current_date now"
proof -
  have "day_us dvd current_date now"
    by (simp add: current_date_def date_of_def minus_mod_eq_mult_div)
  moreover have "sec_us dvd day_us" by (simp add: day_us_def hour_us_def sec_us_def)
  ultimately show ?thesis by (rule dvd_trans [rotated])
qed

lemma later_second:
  assumes "sec_us dvd t" "current_datetime now < t"
  shows "now < t"
proof -
  have "sec_us dvd t - current_datetime now"
    using assms(1) current_datetime_seconds [of now] by (rule dvd_diff)
  moreover have "0 < t - current_datetime now" using assms(2) by simp
  ultimately have "sec_us \<le> t - current_datetime now" by (rule zdvd_imp_le)
  then show ?thesis using current_datetime_le(2) [of now] by linarith
qed

lemma date_time_of: "combine (date_of t) (time_of t) = t"
  by (simp add: combine_def date_of_def time_of_def)

lemma other_weekday:
  assumes "d mod 7 \<noteq> weekday t"
  shows "1 \<le> (d - weekday t) mod 7"
proof -
  have w: "weekday t mod 7 = weekday t" by (simp add: weekday_def)
  have "(d - weekday t) mod 7 \<noteq> 0"
  proof
    assume "(d - weekday t) mod 7 = 0"
    then have "d mod 7 = weekday t mod 7" by (simp add: mod_eq_dvd_iff dvd_eq_mod_eq_0)
    with w assms show False by simp
  qed
  moreover have "0 \<le> (d - weekday t) mod 7" by simp
  ultimately show ?thesis by linarith
qed

text \<open>
  C1, as amended. The claim has every next run strictly later than the current time. What
  \<^verbatim>\<open>calculate_next_run()\<close> gives when it returns, for an interval of at least 1:
  for unit \<^verbatim>\<open>days\<close> with \<^verbatim>\<open>last_run\<close> unset, today's date at \<^verbatim>\<open>at_time\<close>, whether or not that time
  has passed; for unit \<^verbatim>\<open>days\<close> with \<^verbatim>\<open>last_run\<close> set, an instant strictly later than the current
  time, unless the current second is today's \<^verbatim>\<open>at_time\<close> itself; for unit \<^verbatim>\<open>weeks\<close>, an instant
  strictly later than the current time when the job's weekday is not today's; for unit
  \<^verbatim>\<open>hours\<close> with \<^verbatim>\<open>last_run\<close> unset, an instant strictly later than the current time; for unit
  \<^verbatim>\<open>hours\<close> with \<^verbatim>\<open>last_run\<close> set, \<^verbatim>\<open>last_run\<close> plus \<^verbatim>\<open>interval\<close> hours when that is later than the
  current time, and one day more than that otherwise. Nothing is said here of a weekly job
  on its own weekday, nor of a daily job at the very second of its \<^verbatim>\<open>at_time\<close>.
\<close>
theorem scheduled_next_run:
  assumes run: "calculate_next_run now j = Inr j'"
    and iv: "1 \<le> interval j"
  shows "\<exists>t. next_run j' = Some t
     \<and> (unit j = Unit ''days'' \<longrightarrow>
          (\<exists>s rt. at_time j = Some s \<and> strptime_HM s = Inr rt
             \<and> (last_run j = None \<longrightarrow> t = current_date now + rt)
             \<and> (last_run j \<noteq> None \<and> current_datetime now \<noteq> current_date now + rt \<longrightarrow> now < t)))
     \<and> (unit j = Unit ''weeks'' \<longrightarrow>
          (\<exists>d. weeks_day_index j = Inr d
             \<and> (d mod 7 \<noteq> weekday (current_datetime now) \<longrightarrow> now < t)))
     \<and> (unit j = Unit ''hours'' \<and> last_run j = None \<longrightarrow> now < t)
     \<and> (\<forall>lr. unit j = Unit ''hours'' \<and> last_run j = Some lr \<longrightarrow>
          t = (if now < lr + interval j * hour_us then lr + interval j * hour_us
               else lr + interval j * hour_us + day_us))"
proof -
  consider (days) "unit j = Unit ''days''" | (weeks) "unit j = Unit ''weeks''"
    | (hours) "unit j = Unit ''hours''"
    using run by (auto simp: calculate_next_run_def split: if_splits)
  then show ?thesis
  proof cases
    case days
    with run obtain rt where rt: "days_run_time now j = Inr rt"
      by (auto simp: calculate_next_run_def split: sum.splits)
    then obtain s where s: "at_time j = Some s" "strptime_HM s = Inr rt"
      by (auto simp: days_run_time_def strptime_HM_current split: option.splits if_splits)
    have sec: "sec_us dvd current_date now + rt"
      using current_date_seconds [of now] strptime_HM_seconds [OF s(2)] by (rule dvd_add)
    have "0 \<le> rt" using s(2) by (rule strptime_HM_nonneg)
    moreover have "day_us \<le> interval j * day_us"
      using iv by (simp add: day_us_def hour_us_def sec_us_def)
    moreover have "now < current_date now + day_us"
      using mod_bounds_us(4) [of now] by (simp add: current_date_def date_of_def)
    ultimately have far: "now < current_date now + rt + interval j * day_us"
      by linarith
    let ?nr = "if last_run j = None then current_date now + rt
               else if current_datetime now > current_date now + rt
                    then current_date now + rt + interval j * day_us
                    else current_date now + rt"
    have nr: "next_run j' = Some ?nr"
      using run days rt by (auto simp: calculate_next_run_def combine_def Let_def)
    have "last_run j \<noteq> None \<and> current_datetime now \<noteq> current_date now + rt \<longrightarrow> now < ?nr"
      using far later_second [OF sec] by auto
    with nr s days show ?thesis by auto
  next
    case weeks
    with run obtain d where d: "weeks_day_index j = Inr d"
      by (auto simp: calculate_next_run_def split: sum.splits)
    let ?k = "(d - weekday (current_datetime now)) mod 7"
    let ?nr = "current_datetime now + ?k * day_us"
    have pos: "0 \<le> ?k * day_us" by (simp add: day_us_def hour_us_def sec_us_def)
    then have nr: "next_run j' = Some ?nr"
      using run weeks d by (auto simp: calculate_next_run_def Let_def)
    have "now < ?nr" if "d mod 7 \<noteq> weekday (current_datetime now)"
    proof -
      have "1 \<le> ?k" using that by (rule other_weekday)
      then have "day_us \<le> ?k * day_us" by (simp add: day_us_def hour_us_def sec_us_def)
      moreover have "now < current_datetime now + day_us"
        using current_datetime_le(2) [of now] by (simp add: day_us_def hour_us_def sec_us_def)
      ultimately show ?thesis by linarith
    qed
    with nr d weeks show ?thesis by auto
  next
    case hours
    show ?thesis
    proof (cases "last_run j")
      case None
      have "hour_us \<le> interval j * hour_us"
        using iv by (simp add: hour_us_def sec_us_def)
      then have "now < current_datetime now + interval j * hour_us"
        using current_datetime_le(2) [of now] by (simp add: hour_us_def sec_us_def)
      then show ?thesis
        using run hours None
        by (auto simp: calculate_next_run_def strptime_HMS_current combine_def trunc_seconds Let_def
            split: if_splits)
    next
      case (Some lr)
      then show ?thesis
        using run hours
        by (auto simp: calculate_next_run_def date_time_of Let_def split: if_splits)
    qed
  qed
qed

theorem scheduled_next_run_witness:
  "calculate_next_run (738886 * day_us + 13 * hour_us + 123)
        ((hours (every ''u'' 1))\<lparr>last_run := Some (738886 * day_us + 13 * hour_us)\<rparr>)
     = Inr ((hours (every ''u'' 1))
             \<lparr>last_run := Some (738886 * day_us + 13 * hour_us),
              next_run := Some (738886 * day_us + 13 * hour_us + 1 * hour_us)\<rparr>)
   \<and> 738886 * day_us + 13 * hour_us + 123 < 738886 * day_us + 13 * hour_us + 1 * hour_us
   \<and> calculate_next_run (738886 * day_us + 13 * hour_us + 123)
        (on (DayStr ''Tuesday'') (weeks (every ''u'' 1)))
     = Inr ((on (DayStr ''Tuesday'') (weeks (every ''u'' 1)))
             \<lparr>next_run := Some (738887 * day_us + 13 * hour_us)\<rparr>)
   \<and> 738886 * day_us + 13 * hour_us + 123 < 738887 * day_us + 13 * hour_us
   \<and> calculate_next_run (738886 * day_us + 13 * hour_us + 123)
        ((at ''12:10'' (days (every ''u'' 1)))
           \<lparr>last_run := Some (738885 * day_us + 12 * hour_us + 10 * 60 * sec_us)\<rparr>)
     = Inr ((at ''12:10'' (days (every ''u'' 1)))
             \<lparr>last_run := Some (738885 * day_us + 12 * hour_us + 10 * 60 * sec_us),
              next_run := Some (738887 * day_us + 12 * hour_us + 10 * 60 * sec_us)\<rparr>)
   \<and> 738886 * day_us + 13 * hour_us + 123 < 738887 * day_us + 12 * hour_us + 10 * 60 * sec_us"
proof -
  let ?now = "738886 * day_us + 13 * hour_us + 123"
  let ?lr = "738886 * day_us + 13 * hour_us"
  let ?h = "(hours (every ''u'' 1))\<lparr>last_run := Some ?lr\<rparr>"
  let ?h' = "?h\<lparr>next_run := Some (?lr + 1 * hour_us)\<rparr>"
  let ?w = "on (DayStr ''Tuesday'') (weeks (every ''u'' 1))"
  let ?w' = "?w\<lparr>next_run := Some (738887 * day_us + 13 * hour_us)\<rparr>"
  let ?d = "(at ''12:10'' (days (every ''u'' 1)))
              \<lparr>last_run := Some (738885 * day_us + 12 * hour_us + 10 * 60 * sec_us)\<rparr>"
  let ?d' = "?d\<lparr>next_run := Some (738887 * day_us + 12 * hour_us + 10 * 60 * sec_us)\<rparr>"
  have h: "calculate_next_run ?now ?h = Inr ?h'" by code_simp
  have hi: "1 \<le> interval ?h" by code_simp
  have hu: "unit ?h = Unit ''hours''" "last_run ?h = Some ?lr" "interval ?h = 1"
    "next_run ?h' = Some (?lr + 1 * hour_us)" by code_simp+
  have w: "calculate_next_run ?now ?w = Inr ?w'" by code_simp
  have wi: "1 \<le> interval ?w" by code_simp
  have wu: "unit ?w = Unit ''weeks''" "weeks_day_index ?w = Inr 1"
    "1 mod 7 \<noteq> weekday (current_datetime ?now)"
    "next_run ?w' = Some (738887 * day_us + 13 * hour_us)" by code_simp+
  have d: "calculate_next_run ?now ?d = Inr ?d'" by code_simp
  have di: "1 \<le> interval ?d" by code_simp
  have du: "unit ?d = Unit ''days''" "last_run ?d \<noteq> None" "at_time ?d = Some ''12:10''"
    "strptime_HM ''12:10'' = Inr (12 * hour_us + 10 * 60 * sec_us)"
    "current_datetime ?now \<noteq> current_date ?now + (12 * hour_us + 10 * 60 * sec_us)"
    "next_run ?d' = Some (738887 * day_us + 12 * hour_us + 10 * 60 * sec_us)" by code_simp+
  have a: "?now < ?lr + 1 * hour_us"
  proof -
    from scheduled_next_run [OF h hi] obtain t where t: "next_run ?h' = Some t"
      "\<forall>lr. unit ?h = Unit ''hours'' \<and> last_run ?h = Some lr \<longrightarrow>
          t = (if ?now < lr + interval ?h * hour_us then lr + interval ?h * hour_us
               else lr + interval ?h * hour_us + day_us)"
      by blast
    from t(2) hu(1,2)
    have "t = (if ?now < ?lr + interval ?h * hour_us then ?lr + interval ?h * hour_us
               else ?lr + interval ?h * hour_us + day_us)" by blast
    moreover from t(1) hu(4) have "t = ?lr + 1 * hour_us" by simp
    ultimately show ?thesis
      unfolding hu(3) by (simp split: if_splits add: day_us_def hour_us_def sec_us_def)
  qed
  have b: "?now < 738887 * day_us + 13 * hour_us"
  proof -
    from scheduled_next_run [OF w wi] obtain t where t: "next_run ?w' = Some t"
      "unit ?w = Unit ''weeks'' \<longrightarrow>
          (\<exists>d. weeks_day_index ?w = Inr d
             \<and> (d mod 7 \<noteq> weekday (current_datetime ?now) \<longrightarrow> ?now < t))"
      by blast
    from t(2) wu(1) obtain k where k: "weeks_day_index ?w = Inr k"
      "k mod 7 \<noteq> weekday (current_datetime ?now) \<longrightarrow> ?now < t" by blast
    from k(1) wu(2) have "k = 1" by simp
    with k(2) wu(3) have "?now < t" by blast
    moreover from t(1) wu(4) have "t = 738887 * day_us + 13 * hour_us" by simp
    ultimately show ?thesis by (simp only:)
  qed
  have c: "?now < 738887 * day_us + 12 * hour_us + 10 * 60 * sec_us"
  proof -
    from scheduled_next_run [OF d di] obtain t where t: "next_run ?d' = Some t"
      "unit ?d = Unit ''days'' \<longrightarrow>
          (\<exists>s rt. at_time ?d = Some s \<and> strptime_HM s = Inr rt
             \<and> (last_run ?d = None \<longrightarrow> t = current_date ?now + rt)
             \<and> (last_run ?d \<noteq> None \<and> current_datetime ?now \<noteq> current_date ?now + rt
                  \<longrightarrow> ?now < t))"
      by (elim exE conjE) (rule that)
    from t(2) du(1) obtain s rt where s: "at_time ?d = Some s" "strptime_HM s = Inr rt"
      "last_run ?d \<noteq> None \<and> current_datetime ?now \<noteq> current_date ?now + rt \<longrightarrow> ?now < t"
      by blast
    from s(1) du(3) have "s = ''12:10''" by simp
    with s(2) du(4) have "rt = 12 * hour_us + 10 * 60 * sec_us" by simp
    with s(3) du(2,5) have "?now < t" by blast
    moreover from t(1) du(6) have "t = 738887 * day_us + 12 * hour_us + 10 * 60 * sec_us" by simp
    ultimately show ?thesis by (simp only:)
  qed
  from h w d a b c show ?thesis by (simp only: simp_thms)
qed

text \<open>
  C1, the claim as stated fails. At 13:00 on a Monday: a daily job \<^verbatim>\<open>at("12:10")\<close> that never ran
  gets today 12:10, which has passed (the branch \<^verbatim>\<open>if self.last_run is None\<close> keeps it); an
  hourly job that last ran three days ago gets \<^verbatim>\<open>last_run\<close> plus one hour plus one day, which
  is still in the past.
\<close>
theorem next_run_at_or_before_now:
  "calculate_next_run (738886 * day_us + 13 * hour_us) (at ''12:10'' (days (every ''u'' 1)))
     = Inr ((at ''12:10'' (days (every ''u'' 1)))
             \<lparr>next_run := Some (738886 * day_us + 12 * hour_us + 10 * 60 * sec_us)\<rparr>)
   \<and> 738886 * day_us + 12 * hour_us + 10 * 60 * sec_us < 738886 * day_us + 13 * hour_us
   \<and> calculate_next_run (738886 * day_us + 13 * hour_us)
        ((hours (every ''u'' 1))\<lparr>last_run := Some (738883 * day_us + 13 * hour_us)\<rparr>)
     = Inr ((hours (every ''u'' 1))
             \<lparr>last_run := Some (738883 * day_us + 13 * hour_us),
              next_run := Some (738884 * day_us + 14 * hour_us)\<rparr>)
   \<and> 738884 * day_us + 14 * hour_us < 738886 * day_us + 13 * hour_us"
  by code_simp

text \<open>
  The \<^verbatim>\<open>weeks\<close> branch on the job's own weekday. The next run is first set to the current
  instant plus 0 to 6 days, so the test \<^verbatim>\<open>now > next_run\<close> that would move it on by \<^verbatim>\<open>interval\<close>
  weeks never holds: the job gets the current instant and is due at once, also when
  \<^verbatim>\<open>run()\<close> has just set \<^verbatim>\<open>last_run\<close>.
\<close>
lemma weeks_on_own_weekday:
  assumes "unit j = Unit ''weeks''" "weeks_day_index j = Inr d"
    and "d mod 7 = weekday (current_datetime now)"
  shows "calculate_next_run now j = Inr (j\<lparr>next_run := Some (current_datetime now)\<rparr>)"
    and "due now (j\<lparr>next_run := Some (current_datetime now)\<rparr>)"
proof -
  have "weekday (current_datetime now) mod 7 = weekday (current_datetime now)"
    by (simp add: weekday_def)
  then have "(d - weekday (current_datetime now)) mod 7 = (d mod 7 - d mod 7) mod 7"
    using assms(3) mod_diff_eq [of d 7 "weekday (current_datetime now)"] by simp
  then have "(d - weekday (current_datetime now)) mod 7 = 0" by simp
  then show "calculate_next_run now j = Inr (j\<lparr>next_run := Some (current_datetime now)\<rparr>)"
    using assms(1,2) by (simp add: calculate_next_run_def Let_def)
  show "due now (j\<lparr>next_run := Some (current_datetime now)\<rparr>)"
    by (simp add: due_def)
qed

section \<open>scheduler.py: registering a job\<close>

lemma calculate_next_run_fields:
  assumes "calculate_next_run now j = Inr j'"
  shows "scheduler j' = scheduler j" "job_id j' = job_id j"
proof -
  from calculate_next_run_frame [OF assms] have e: "j' = j\<lparr>next_run := next_run j'\<rparr>" .
  show "scheduler j' = scheduler j" by (subst e) simp
  show "job_id j' = job_id j" by (subst e) simp
qed

text \<open>
  C6. When \<^verbatim>\<open>do()\<close> is called on a job that a scheduler owns, whose id is a string and has an
  entry in the state file, the job rebuilt from that entry by \<^verbatim>\<open>from_dict\<close> is what is appended
  to the scheduler's list: it carries the entry's \<^verbatim>\<open>next_run\<close> and \<^verbatim>\<open>last_run\<close> (and interval, unit,
  function and arguments), not the values just computed for the fresh job, which \<^verbatim>\<open>do()\<close>
  only returns. Stated for an entry that holds a \<^verbatim>\<open>next_run\<close> and names a function that can be
  found.
\<close>
theorem do_registers_persisted_job:
  assumes fresh: "calculate_next_run now (self\<lparr>job_func := Some \<lparr>func = f, args = as, kwargs = kws\<rparr>\<rparr>) = Inr self'"
    and sched: "scheduler self"
    and id: "job_id self = IdStr i"
    and persisted: "load_job_data i file = Some data"
    and action: "resolve (jd_action_module data) (jd_action_name data) = Inr action"
    and nr: "jd_next_run data = Some t"
  shows "do resolve uuid now file f as kws self sched_jobs =
           Inr (self', sched_jobs @
             [\<lparr> job_id = IdStr i, interval = jd_interval data, unit = jd_unit data,
                job_func = Some \<lparr>func = action, args = jd_args data, kwargs = jd_kwargs data\<rparr>,
                at_time = jd_at_time data, day_of_week = jd_day_of_week data,
                last_run = jd_last_run data, next_run = Some t, scheduler = False \<rparr>])"
proof -
  have s': "scheduler self'" "job_id self' = IdStr i"
    using calculate_next_run_fields [OF fresh] sched id by simp_all
  from persisted have i: "jd_id data = IdStr i"
    by (auto simp: load_job_data_def find_Some_iff split: state_file.splits)
  have "from_dict resolve uuid now data =
          Inr \<lparr> job_id = IdStr i, interval = jd_interval data, unit = jd_unit data,
                job_func = Some \<lparr>func = action, args = jd_args data, kwargs = jd_kwargs data\<rparr>,
                at_time = jd_at_time data, day_of_week = jd_day_of_week data,
                last_run = jd_last_run data, next_run = Some t, scheduler = False \<rparr>"
    using action nr i by (cases "jd_last_run data") (simp_all add: from_dict_def Job_init_def Let_def)
  then show ?thesis
    using fresh s' persisted by (simp add: do_def)
qed




theorem do_registers_persisted_job_witness:
  "do (\<lambda>m n. Inr \<lparr>c_module = m, c_name = n, c_outcome = Returns\<rparr>) ''u''
      (738886 * day_us + 13 * hour_us)
      (Doc [\<lparr> jd_id = IdStr ''Not sorted'', jd_interval = 1, jd_unit = Unit ''hours'',
               jd_at_time = None, jd_day_of_week = None,
               jd_last_run = Some (738886 * day_us + 9 * hour_us),
               jd_next_run = Some (738886 * day_us + 10 * hour_us),
               jd_action_module = ''jobs'', jd_action_name = ''scrape_upload'',
               jd_args = [''Not sorted''], jd_kwargs = [] \<rparr>])
      \<lparr>c_module = ''jobs'', c_name = ''scrape_upload'', c_outcome = Returns\<rparr> [''Not sorted''] []
      (with_id (IdStr ''Not sorted'') (hours (every ''u'' 1))) []
   = Inr ((with_id (IdStr ''Not sorted'') (hours (every ''u'' 1)))
            \<lparr> job_func := Some \<lparr>func = \<lparr>c_module = ''jobs'', c_name = ''scrape_upload'', c_outcome = Returns\<rparr>,
                                 args = [''Not sorted''], kwargs = []\<rparr>,
              next_run := Some (738886 * day_us + 14 * hour_us) \<rparr>,
          [\<lparr> job_id = IdStr ''Not sorted'', interval = 1, unit = Unit ''hours'',
             job_func = Some \<lparr>func = \<lparr>c_module = ''jobs'', c_name = ''scrape_upload'', c_outcome = Returns\<rparr>,
                                args = [''Not sorted''], kwargs = []\<rparr>,
             at_time = None, day_of_week = None,
             last_run = Some (738886 * day_us + 9 * hour_us),
             next_run = Some (738886 * day_us + 10 * hour_us), scheduler = False \<rparr>])"
proof -
  let ?now = "738886 * day_us + 13 * hour_us"
  let ?f = "\<lparr>c_module = ''jobs'', c_name = ''scrape_upload'', c_outcome = Returns\<rparr>"
  let ?data = "\<lparr> jd_id = IdStr ''Not sorted'', jd_interval = 1, jd_unit = Unit ''hours'',
               jd_at_time = None, jd_day_of_week = None,
               jd_last_run = Some (738886 * day_us + 9 * hour_us),
               jd_next_run = Some (738886 * day_us + 10 * hour_us),
               jd_action_module = ''jobs'', jd_action_name = ''scrape_upload'',
               jd_args = [''Not sorted''], jd_kwargs = [] \<rparr>"
  let ?self = "with_id (IdStr ''Not sorted'') (hours (every ''u'' 1))"
  let ?self' = "?self\<lparr> job_func := Some \<lparr>func = ?f, args = [''Not sorted''], kwargs = []\<rparr>,
              next_run := Some (738886 * day_us + 14 * hour_us) \<rparr>"
  have fresh: "calculate_next_run ?now (?self\<lparr>job_func := Some \<lparr>func = ?f, args = [''Not sorted''], kwargs = []\<rparr>\<rparr>) = Inr ?self'"
    by code_simp
  have sched: "scheduler ?self" by code_simp
  have id: "job_id ?self = IdStr ''Not sorted''" by code_simp
  have persisted: "load_job_data ''Not sorted'' (Doc [?data]) = Some ?data" by code_simp
  have action: "(\<lambda>m n. Inr \<lparr>c_module = m, c_name = n, c_outcome = Returns\<rparr>) (jd_action_module ?data) (jd_action_name ?data) = Inr ?f"
    by simp
  have nr: "jd_next_run ?data = Some (738886 * day_us + 10 * hour_us)" by simp
  show ?thesis
    using do_registers_persisted_job
      [where resolve = "\<lambda>m n. Inr \<lparr>c_module = m, c_name = n, c_outcome = Returns\<rparr>"
         and uuid = "''u''" and sched_jobs = "[]", OF fresh sched id persisted action nr]
    by simp
qed

section \<open>scheduler.py: the sweep\<close>

lemma write_loop_jobs: "write_loop out as w = (st, w') \<Longrightarrow> w_jobs w' = w_jobs w"
  by (induction out as w rule: write_loop.induct) (auto simp: emit_def split: if_splits)

lemma save_data_jobs: "save_data w = (st, w') \<Longrightarrow> w_jobs w' = w_jobs w"
  by (auto simp: save_data_def Let_def emit_def split: sum.splits if_splits dest!: write_loop_jobs)

lemma run_frame: "run now j = (e, j') \<Longrightarrow> c_outcome (func p) = Raises \<Longrightarrow> job_func j = Some p \<Longrightarrow> e = Some ActionError \<and> j' = j"
  by (simp add: run_def)

lemma sweep_jobs:
  "sweep now i n w = (st, w') \<Longrightarrow>
     length (w_jobs w') = length (w_jobs w) \<and> (\<forall>k. i + n \<le> k \<longrightarrow> w_jobs w' ! k = w_jobs w ! k)"
proof (induction n arbitrary: i w)
  case 0
  then show ?case by simp
next
  case (Suc n)
  show ?case
  proof (cases "due now (w_jobs w ! i)")
    case False
    with Suc.prems have "sweep now (Suc i) n w = (st, w')" by simp
    from Suc.IH [OF this] show ?thesis by simp
  next
    case True
    define w1 where "w1 = emit (EvLog (job_id (w_jobs w ! i)) #
        (if job_func (w_jobs w ! i) = None then [] else [EvCall (job_id (w_jobs w ! i))])) w"
    obtain e job' where r: "run now (w_jobs w ! i) = (e, job')" by (cases "run now (w_jobs w ! i)")
    define w2 where "w2 = w1\<lparr>w_jobs := (w_jobs w1)[i := job']\<rparr>"
    have j2: "length (w_jobs w2) = length (w_jobs w)" "\<And>k. i < k \<Longrightarrow> w_jobs w2 ! k = w_jobs w ! k"
      by (simp_all add: w2_def w1_def emit_def)
    show ?thesis
    proof (cases e)
      case (Some err)
      with Suc.prems True r have "w' = w2"
        by (simp add: Let_def w1_def w2_def)
      with j2 show ?thesis by simp
    next
      case None
      obtain st2 w3 where s: "save_data w2 = (st2, w3)" by (cases "save_data w2")
      from save_data_jobs [OF s] have j3: "w_jobs w3 = w_jobs w2" .
      show ?thesis
      proof (cases "st2 = Completed")
        case True
        with Suc.prems \<open>due now (w_jobs w ! i)\<close> r None s
        have "sweep now (Suc i) n w3 = (st, w')"
          by (simp add: Let_def w1_def w2_def)
        from Suc.IH [OF this] j2 j3 show ?thesis by simp
      next
        case False
        with Suc.prems \<open>due now (w_jobs w ! i)\<close> r None s
        have "w' = w3"
          by (cases st2) (simp_all add: Let_def w1_def w2_def)
        with j2 j3 show ?thesis by simp
      qed
    qed
  qed
qed

lemma sweep_add:
  "sweep now i (m + n) w =
     (case sweep now i m w of (Completed, w1) \<Rightarrow> sweep now (i + m) n w1 | other \<Rightarrow> other)"
proof (induction m arbitrary: i w)
  case 0
  then show ?case by simp
next
  case (Suc m)
  show ?case
    by (simp add: Suc.IH Let_def split: prod.splits option.splits status.splits)
qed

text \<open>
  C4, as amended. The claim has a failing job logged and the sweep go on. In
  \<^verbatim>\<open>run_pending()\<close> (and in \<^verbatim>\<open>_run_job\<close>, \<^verbatim>\<open>run\<close> and the loop of main.py) nothing catches an
  exception. So when the sweep has handled the jobs before index \<open>i\<close> and the job at \<open>i\<close> is due
  and its function raises, \<^verbatim>\<open>run_pending()\<close> ends with that exception: after the line that
  announces the job and the call, nothing more is logged, run or saved; the job at \<open>i\<close> and
  every job after it are as they were when the sweep began.
\<close>
theorem raising_job_stops_sweep:
  assumes before: "sweep now 0 i w = (Completed, w1)"
    and i: "i < length (w_jobs w)"
    and "due now (w_jobs w ! i)"
    and "job_func (w_jobs w ! i) = Some p"
    and "c_outcome (func p) = Raises"
  shows "run_pending now w =
           (Raised ActionError, emit [EvLog (job_id (w_jobs w ! i)), EvCall (job_id (w_jobs w ! i))] w1)
         \<and> w_jobs w1 ! i = w_jobs w ! i
         \<and> (\<forall>k. i \<le> k \<longrightarrow> w_jobs w1 ! k = w_jobs w ! k)"
proof -
  from sweep_jobs [OF before] have len: "length (w_jobs w1) = length (w_jobs w)"
    and same: "\<And>k. i \<le> k \<Longrightarrow> w_jobs w1 ! k = w_jobs w ! k" by simp_all
  from i obtain n where n: "length (w_jobs w) = i + Suc n"
    by (metis less_iff_Suc_add add_Suc_right)
  have job: "w_jobs w1 ! i = w_jobs w ! i" using same by simp
  have "sweep now i (Suc n) w1 =
          (Raised ActionError, emit [EvLog (job_id (w_jobs w ! i)), EvCall (job_id (w_jobs w ! i))] w1)"
  proof -
    have "(w_jobs w1)[i := w_jobs w ! i] = w_jobs w1"
      using job by (metis list_update_id)
    then show ?thesis
      using assms(3-5) by (simp add: job run_def Let_def emit_def)
  qed
  moreover have "run_pending now w = sweep now i (Suc n) w1"
  proof -
    have "run_pending now w = sweep now 0 (i + Suc n) w"
      by (simp only: run_pending_def n)
    also have "\<dots> = sweep now (0 + i) (Suc n) w1"
      by (simp only: sweep_add [of now 0 i "Suc n" w] before prod.case status.case)
    finally show ?thesis by simp
  qed
  ultimately show ?thesis
    using same by simp
qed


theorem raising_job_stops_sweep_witness:
  "sweep monday_1pm 0 1 three_jobs = (Completed, snd (sweep monday_1pm 0 1 three_jobs))
   \<and> 1 < length (w_jobs three_jobs)
   \<and> due monday_1pm (w_jobs three_jobs ! 1)
   \<and> job_func (w_jobs three_jobs ! 1) = Some \<lparr>func = failing_action, args = [], kwargs = []\<rparr>
   \<and> c_outcome failing_action = Raises
   \<and> run_pending monday_1pm three_jobs =
       (Raised ActionError,
        emit [EvLog (IdStr ''b''), EvCall (IdStr ''b'')] (snd (sweep monday_1pm 0 1 three_jobs)))"
proof -
  have "fst (sweep monday_1pm 0 1 three_jobs) = Completed" by code_simp
  then have before: "sweep monday_1pm 0 1 three_jobs = (Completed, snd (sweep monday_1pm 0 1 three_jobs))"
    by (simp add: prod_eq_iff)
  have i: "1 < length (w_jobs three_jobs)" by code_simp
  have d: "due monday_1pm (w_jobs three_jobs ! 1)" by code_simp
  have f: "job_func (w_jobs three_jobs ! 1) = Some \<lparr>func = failing_action, args = [], kwargs = []\<rparr>"
    by code_simp
  have r: "c_outcome (func \<lparr>func = failing_action, args = [], kwargs = []\<rparr>) = Raises"
    by code_simp
  have b: "job_id (w_jobs three_jobs ! 1) = IdStr ''b''" by code_simp
  from raising_job_stops_sweep [OF before i d f r] before i d f r b
  show ?thesis by simp
qed

text \<open>
  C4, the claim as stated fails. Of three due jobs the second raises: the sweep ends with
  the exception, the trace has no entry for the failure and none for the third job, which
  is left as it was, still due.
\<close>
theorem sweep_ends_at_raising_job:
  "fst (run_pending monday_1pm three_jobs) = Raised ActionError
   \<and> w_trace (snd (run_pending monday_1pm three_jobs)) =
       [EvLog (IdStr ''a''), EvCall (IdStr ''a''), EvWrite, EvLog (IdStr ''b''), EvCall (IdStr ''b'')]
   \<and> due monday_1pm (hourly_job ''c'' scrape_upload)
   \<and> w_jobs (snd (run_pending monday_1pm three_jobs)) ! 2 = hourly_job ''c'' scrape_upload"
  by code_simp

section \<open>scheduler.py: saving the jobs\<close>

lemma map_of_dict_update: "map_of (dict_update d kvs) = map_of d ++ map_of (rev kvs)"
proof (induction kvs arbitrary: d)
  case Nil
  then show ?case by (simp add: dict_update_def)
next
  case (Cons kv kvs)
  obtain k v where kv: "kv = (k, v)" by (cases kv)
  have "dict_update d (kv # kvs) = dict_update (AList.update k v d) kvs"
    by (simp add: dict_update_def kv)
  moreover have "map_of (AList.update k v d) = (map_of d)(k \<mapsto> v)"
    by (rule update_conv')
  ultimately have "map_of (dict_update d (kv # kvs)) = (map_of d)(k \<mapsto> v) ++ map_of (rev kvs)"
    by (simp only: Cons.IH)
  also have "\<dots> = map_of d ++ (map_of [(k, v)] ++ map_of (rev kvs))"
    by (simp add: map_add_assoc [symmetric] map_add_upd)
  finally show ?case by (simp add: kv)
qed

lemma distinct_dict_update:
  "distinct (map fst d) \<Longrightarrow> distinct (map fst (dict_update d kvs))"
  unfolding dict_update_def
  by (induction kvs arbitrary: d) (auto simp: distinct_update)

lemma keys_dict_update: "fst ` set (dict_update d kvs) = fst ` set d \<union> fst ` set kvs"
proof (induction kvs arbitrary: d)
  case Nil
  then show ?case by (simp add: dict_update_def)
next
  case (Cons kv kvs)
  obtain k v where kv: "kv = (k, v)" by (cases kv)
  have "dict_update d (kv # kvs) = dict_update (AList.update k v d) kvs"
    by (simp add: dict_update_def kv)
  then have "fst ` set (dict_update d (kv # kvs)) = fst ` set (AList.update k v d) \<union> fst ` set kvs"
    by (simp only: Cons.IH)
  also have "fst ` set (AList.update k v d) = {k} \<union> fst ` set d"
    by (rule dom_update)
  finally show ?case by (auto simp: kv)
qed

lemma dict_items_update: "dict_items kvs = dict_update [] kvs"
  by (simp add: dict_items_def dict_update_def)

lemma distinct_dict_items: "distinct (map fst (dict_items kvs))"
  by (simp add: dict_items_update distinct_dict_update)

lemma keys_dict_items: "fst ` set (dict_items kvs) = fst ` set kvs"
  by (simp add: dict_items_update keys_dict_update)

lemma dict_update_member:
  assumes "(k, v) \<in> set (dict_update d kvs)" and "distinct (map fst d)"
  shows "(k, v) \<in> set d \<or> (k, v) \<in> set kvs"
proof -
  have "map_of (dict_update d kvs) k = Some v"
    using assms distinct_dict_update by (metis map_of_is_SomeI)
  then have "map_of d k = Some v \<or> map_of (rev kvs) k = Some v"
    by (auto simp: map_of_dict_update map_add_Some_iff)
  then show ?thesis by (auto dest: map_of_SomeD)
qed

lemma dict_items_member: "(k, v) \<in> set (dict_items kvs) \<Longrightarrow> (k, v) \<in> set kvs"
  using dict_update_member [of k v "[]" kvs] by (simp add: dict_items_update)

lemma collect_Inr:
  "collect xs = Inr ys \<Longrightarrow> length ys = length xs \<and> (\<forall>n < length xs. xs ! n = Inr (ys ! n))"
proof (induction xs arbitrary: ys rule: collect.induct)
  case 1
  then show ?case by simp
next
  case (2 e xs)
  then show ?case by simp
next
  case (3 x xs)
  then obtain zs where zs: "collect xs = Inr zs" "ys = x # zs"
    by (auto split: sum.splits)
  from "3.IH" [OF zs(1)] zs(2) show ?case
    by (auto simp: nth_Cons split: nat.splits)
qed

lemma to_dict_id: "to_dict j = Inr d \<Longrightarrow> jd_id d = job_id j"
  by (auto simp: to_dict_def split: option.splits)

lemma write_loop_Completed:
  "write_loop out as w = (Completed, w') \<Longrightarrow> w_file w' = Doc out"
  by (induction out as w rule: write_loop.induct) (auto simp: emit_def split: if_splits)


lemma save_data_Completed:
  assumes "save_data w = (Completed, w')"
  shows "\<exists>ds. collect (map to_dict (w_jobs w)) = Inr ds \<and>
           w_file w' = Doc (map snd (dict_update (existing_jobs_dict (w_file w))
                                       (dict_items (zip (map job_id (w_jobs w)) ds))))"
proof (cases "collect (map to_dict (w_jobs w))")
  case (Inl e)
  with assms show ?thesis by (simp add: save_data_def Let_def)
next
  case (Inr ds)
  with assms show ?thesis
    by (auto simp: save_data_def Let_def split: if_splits dest: write_loop_Completed)
qed

lemma existing_jobs_dict_member:
  "(k, d) \<in> set (existing_jobs_dict f) \<Longrightarrow> d \<in> set (file_jobs f) \<and> jd_id d = k"
  by (cases f) (auto simp: existing_jobs_dict_def file_jobs_def dest!: dict_items_member)

lemma map_of_rev_distinct: "distinct (map fst xs) \<Longrightarrow> map_of (rev xs) = map_of xs"
  by (subst map_of_inject_set) (simp_all add: rev_map [symmetric])

lemma existing_jobs_dict_lookup:
  assumes "d \<in> set (file_jobs f)" and "distinct (map jd_id (file_jobs f))"
  shows "map_of (existing_jobs_dict f) (jd_id d) = Some d"
proof (cases f)
  case (Doc js)
  let ?ps = "map (\<lambda>job_data. (jd_id job_data, job_data)) js"
  have m: "map fst ?ps = map jd_id js" by (simp add: comp_def)
  have dist: "distinct (map fst ?ps)" using assms(2) Doc by (simp only: m) (simp add: file_jobs_def)
  have "map_of (dict_items ?ps) = map_of (rev ?ps)"
    by (simp add: dict_items_update map_of_dict_update)
  also have "\<dots> = map_of ?ps" using dist by (rule map_of_rev_distinct)
  finally have "map_of (existing_jobs_dict f) = map_of ?ps"
    by (simp add: existing_jobs_dict_def Doc)
  moreover have "(jd_id d, d) \<in> set ?ps" using assms(1) Doc by (auto simp: file_jobs_def)
  ultimately show ?thesis using dist by (simp only: map_of_is_SomeI)
qed (use assms in \<open>simp_all add: file_jobs_def\<close>)

lemma existing_jobs_dict_keys: "fst ` set (existing_jobs_dict f) = jd_id ` set (file_jobs f)"
  by (cases f) (auto simp: existing_jobs_dict_def file_jobs_def keys_dict_items image_image)

lemma distinct_existing_jobs_dict: "distinct (map fst (existing_jobs_dict f))"
  by (cases f) (simp_all add: existing_jobs_dict_def distinct_dict_items)


text \<open>
  C5. Whenever \<^verbatim>\<open>save_data()\<close> returns, the state file is a document of jobs in which every
  entry of the old file whose id is the id of no job in memory is still present, unchanged;
  every entry whose id is the id of a job in memory is that job's \<^verbatim>\<open>to_dict()\<close>; the ids are those
  of the old file together with those of the jobs in memory, each once. The old file is
  taken to be keyed by id (no id twice), as every file \<^verbatim>\<open>save_data()\<close> writes is; a file that
  is absent or unreadable counts as holding no entry. \<open>save_data_returns\<close> below says when
  the call returns.
\<close>
theorem save_data_merges:
  assumes saved: "save_data w = (Completed, w')"
    and dist: "distinct (map jd_id (file_jobs (w_file w)))"
  shows "w_file w' = Doc (file_jobs (w_file w'))
     \<and> (\<forall>d \<in> set (file_jobs (w_file w)).
           jd_id d \<notin> job_id ` set (w_jobs w) \<longrightarrow> d \<in> set (file_jobs (w_file w')))
     \<and> (\<forall>d \<in> set (file_jobs (w_file w')).
           jd_id d \<in> job_id ` set (w_jobs w) \<longrightarrow> (\<exists>j \<in> set (w_jobs w). to_dict j = Inr d))
     \<and> jd_id ` set (file_jobs (w_file w')) =
           jd_id ` set (file_jobs (w_file w)) \<union> job_id ` set (w_jobs w)
     \<and> distinct (map jd_id (file_jobs (w_file w')))"
proof -
  define E where "E = existing_jobs_dict (w_file w)"
  from save_data_Completed [OF saved] obtain ds
    where ds: "collect (map to_dict (w_jobs w)) = Inr ds"
      and wf: "w_file w' = Doc (map snd (dict_update E (dict_items (zip (map job_id (w_jobs w)) ds))))"
    unfolding E_def by blast
  define U where "U = dict_items (zip (map job_id (w_jobs w)) ds)"
  define M where "M = dict_update E U"
  have out: "file_jobs (w_file w') = map snd M"
    by (simp add: wf file_jobs_def M_def U_def)
  from collect_Inr [OF ds] have len: "length ds = length (w_jobs w)"
    and nth: "\<And>n. n < length (w_jobs w) \<Longrightarrow> to_dict (w_jobs w ! n) = Inr (ds ! n)"
    by simp_all
  have Ukeys: "fst ` set U = job_id ` set (w_jobs w)"
  proof -
    have "map fst (zip (map job_id (w_jobs w)) ds) = map job_id (w_jobs w)"
      using len by (simp add: map_fst_zip)
    then have "fst ` set (zip (map job_id (w_jobs w)) ds) = job_id ` set (w_jobs w)"
      by (metis list.set_map)
    then show ?thesis by (simp add: U_def keys_dict_items)
  qed
  have Umem: "\<exists>j \<in> set (w_jobs w). job_id j = k \<and> to_dict j = Inr d" if "(k, d) \<in> set U" for k d
  proof -
    from that have "(k, d) \<in> set (zip (map job_id (w_jobs w)) ds)"
      unfolding U_def by (rule dict_items_member)
    then obtain n where n: "n < length (w_jobs w)" "job_id (w_jobs w ! n) = k" "ds ! n = d"
      using len by (auto simp: in_set_zip)
    with nth [OF n(1)] show ?thesis by (auto intro!: bexI [of _ "w_jobs w ! n"])
  qed
  have Edist: "distinct (map fst E)" unfolding E_def by (rule distinct_existing_jobs_dict)
  have Mdist: "distinct (map fst M)" unfolding M_def using Edist by (rule distinct_dict_update)
  have Mmem: "(k, d) \<in> set E \<or> (k, d) \<in> set U" if "(k, d) \<in> set M" for k d
    using that Edist unfolding M_def by (rule dict_update_member)
  have Minv: "jd_id d = k" if "(k, d) \<in> set M" for k d
    using Mmem [OF that] by (auto simp: E_def dest: existing_jobs_dict_member Umem to_dict_id)
  have ids: "map jd_id (map snd M) = map fst M"
    using Minv by (auto simp: comp_def)
  have Mlookup: "map_of M k = (case map_of (rev U) k of None \<Rightarrow> map_of E k | Some v \<Rightarrow> Some v)" for k
    by (simp add: M_def map_of_dict_update map_add_def)
  have Udom: "map_of (rev U) k = None \<longleftrightarrow> k \<notin> job_id ` set (w_jobs w)" for k
    using Ukeys by (simp add: map_of_eq_None_iff)
  have kept: "d \<in> set (map snd M)"
    if "d \<in> set (file_jobs (w_file w))" "jd_id d \<notin> job_id ` set (w_jobs w)" for d
  proof -
    have "map_of M (jd_id d) = Some d"
      using that existing_jobs_dict_lookup [OF that(1) dist] Udom [of "jd_id d"]
      by (simp add: Mlookup E_def)
    then have "(jd_id d, d) \<in> set M" by (rule map_of_SomeD)
    then show ?thesis by force
  qed
  have replaced: "\<exists>j \<in> set (w_jobs w). to_dict j = Inr d"
    if "d \<in> set (map snd M)" "jd_id d \<in> job_id ` set (w_jobs w)" for d
  proof -
    from that(1) obtain k where k: "(k, d) \<in> set M" by auto
    then have kd: "k = jd_id d" using Minv by simp
    from k Mdist have "map_of M k = Some d" by (rule map_of_is_SomeI [rotated])
    moreover from that(2) kd obtain d' where d': "map_of (rev U) k = Some d'"
      using Udom [of k] by auto
    ultimately have "d' = d" by (simp add: Mlookup)
    with d' have "(k, d) \<in> set U" by (auto dest: map_of_SomeD)
    from Umem [OF this] show ?thesis by auto
  qed
  have keys: "jd_id ` set (map snd M) = jd_id ` set (file_jobs (w_file w)) \<union> job_id ` set (w_jobs w)"
  proof -
    have "jd_id ` set (map snd M) = set (map jd_id (map snd M))" by (simp add: image_image)
    also have "\<dots> = fst ` set M" by (simp only: ids) simp
    also have "\<dots> = fst ` set E \<union> fst ` set U" unfolding M_def by (rule keys_dict_update)
    finally show ?thesis by (simp add: Ukeys E_def existing_jobs_dict_keys)
  qed
  have "distinct (map jd_id (map snd M))" using Mdist by (simp only: ids)
  then show ?thesis
    using kept replaced keys by (simp only: out) (simp add: wf M_def U_def)
qed


theorem save_data_merges_witness:
  "save_data saving_world = (Completed, snd (save_data saving_world))
   \<and> distinct (map jd_id (file_jobs (w_file saving_world)))
   \<and> other_entry \<in> set (file_jobs (w_file saving_world))
   \<and> jd_id other_entry \<notin> job_id ` set (w_jobs saving_world)
   \<and> other_entry \<in> set (file_jobs (w_file (snd (save_data saving_world))))
   \<and> stale_entry \<notin> set (file_jobs (w_file (snd (save_data saving_world))))
   \<and> to_dict (hourly_job ''a'' scrape_upload)
        = Inr (file_jobs (w_file (snd (save_data saving_world))) ! 1)
   \<and> length (file_jobs (w_file (snd (save_data saving_world)))) = 2"
proof -
  have "fst (save_data saving_world) = Completed" by code_simp
  then have saved: "save_data saving_world = (Completed, snd (save_data saving_world))"
    by (simp add: prod_eq_iff)
  have dist: "distinct (map jd_id (file_jobs (w_file saving_world)))" by code_simp
  have mem: "other_entry \<in> set (file_jobs (w_file saving_world))" by code_simp
  have other: "jd_id other_entry \<notin> job_id ` set (w_jobs saving_world)" by code_simp
  have rest: "stale_entry \<notin> set (file_jobs (w_file (snd (save_data saving_world))))"
    "to_dict (hourly_job ''a'' scrape_upload)
        = Inr (file_jobs (w_file (snd (save_data saving_world))) ! 1)"
    "length (file_jobs (w_file (snd (save_data saving_world)))) = 2"
    by code_simp+
  from save_data_merges [OF saved dist] mem other
  have "other_entry \<in> set (file_jobs (w_file (snd (save_data saving_world))))" by blast
  with saved dist mem other rest show ?thesis by simp
qed

lemma write_loop_returns:
  assumes "\<forall>a \<in> set pre. a = NoSpace \<or> (\<exists>left. a = WriteFailed True left)"
  shows "fst (write_loop out (pre @ Written # rest) w) = Completed"
  using assms
proof (induction pre arbitrary: w)
  case Nil
  then show ?case by simp
next
  case (Cons a pre)
  then show ?case by (cases a) auto
qed

lemma collect_to_dict:
  "\<forall>j \<in> set js. job_func j \<noteq> None \<Longrightarrow> \<exists>ds. collect (map to_dict js) = Inr ds"
proof (induction js)
  case Nil
  then show ?case by simp
next
  case (Cons j js)
  then obtain p ds where p: "job_func j = Some p" and ds: "collect (map to_dict js) = Inr ds"
    by auto
  from p obtain d where "to_dict j = Inr d" by (simp add: to_dict_def)
  with ds show ?case by simp
qed

text \<open>
  \<^verbatim>\<open>save_data()\<close> returns when every job has a function and nothing to be written is a class
  object, once the disk has room: attempts that find the disk full only make it ask again.
\<close>
lemma save_data_returns:
  assumes jobs: "\<forall>j \<in> set (w_jobs w). job_func j \<noteq> None \<and> job_id j \<noteq> StrClass \<and> unit j \<noteq> IntClass"
    and entries: "\<forall>d \<in> set (file_jobs (w_file w)). serializable d"
    and disk: "w_disk w = pre @ Written # rest"
    and pre: "\<forall>a \<in> set pre. a = NoSpace \<or> (\<exists>left. a = WriteFailed True left)"
  shows "fst (save_data w) = Completed"
proof -
  from jobs collect_to_dict [of "w_jobs w"] obtain ds
    where ds: "collect (map to_dict (w_jobs w)) = Inr ds" by auto
  define U where "U = dict_items (zip (map job_id (w_jobs w)) ds)"
  define M where "M = dict_update (existing_jobs_dict (w_file w)) U"
  from collect_Inr [OF ds] have len: "length ds = length (w_jobs w)"
    and nth: "\<And>n. n < length (w_jobs w) \<Longrightarrow> to_dict (w_jobs w ! n) = Inr (ds ! n)"
    by simp_all
  have "serializable d" if "(k, d) \<in> set M" for k d
  proof -
    from that have "(k, d) \<in> set (existing_jobs_dict (w_file w)) \<or> (k, d) \<in> set U"
      unfolding M_def using distinct_existing_jobs_dict by (rule dict_update_member)
    then show ?thesis
    proof
      assume "(k, d) \<in> set (existing_jobs_dict (w_file w))"
      with entries show ?thesis by (auto dest: existing_jobs_dict_member)
    next
      assume "(k, d) \<in> set U"
      then have "(k, d) \<in> set (zip (map job_id (w_jobs w)) ds)"
        unfolding U_def by (rule dict_items_member)
      then obtain n where n: "n < length (w_jobs w)" "ds ! n = d"
        using len by (auto simp: in_set_zip)
      from nth [OF n(1)] n jobs have "to_dict (w_jobs w ! n) = Inr d" "w_jobs w ! n \<in> set (w_jobs w)"
        by simp_all
      with jobs show ?thesis
        by (auto simp: to_dict_def serializable_def split: option.splits)
    qed
  qed
  then have "list_all serializable (map snd M)"
    by (auto simp: list_all_iff)
  then show ?thesis
    using ds disk write_loop_returns [OF pre]
    by (simp add: save_data_def Let_def M_def U_def emit_def)
qed

section \<open>common.py: writing records\<close>

lemma replace_first_None: "replace_first new data = None \<longleftrightarrow> (\<forall>r \<in> set data. \<not> same_key new r)"
  by (induction data) auto

lemma replace_first_Some:
  assumes "i < length data" "same_key new (data ! i)" "\<forall>k < i. \<not> same_key new (data ! k)"
  shows "replace_first new data = Some (data[i := new])"
  using assms
proof (induction data arbitrary: i)
  case Nil
  then show ?case by simp
next
  case (Cons r data)
  show ?case
  proof (cases i)
    case 0
    with Cons.prems show ?thesis by simp
  next
    case (Suc n)
    with Cons.prems have "\<not> same_key new r" by auto
    moreover have "replace_first new data = Some (data[n := new])"
      using Cons.prems Suc by (intro Cons.IH) auto
    ultimately show ?thesis using Suc by simp
  qed
qed

lemma replace_first_length: "replace_first new data = Some data' \<Longrightarrow> length data' = length data"
  by (induction data arbitrary: data') (auto split: if_splits)


lemma replace_first_links:
  assumes "replace_first new data = Some data'" and "\<forall>r \<in> set data. truthy (pyget r ''Link for video'')"
  shows "map (\<lambda>r. pyget r ''Link for video'') data' = map (\<lambda>r. pyget r ''Link for video'') data"
  using assms
proof (induction data arbitrary: data')
  case Nil
  then show ?case by simp
next
  case (Cons r data)
  then show ?case by (auto simp: same_key_def split: if_splits)
qed

lemma upsert_links:
  assumes t: "\<forall>r \<in> set data. truthy (pyget r ''Link for video'')"
    and d: "distinct (map (\<lambda>r. pyget r ''Link for video'') data)"
    and n: "truthy (pyget new ''Link for video'')"
  shows "distinct (map (\<lambda>r. pyget r ''Link for video'') (upsert data new))
       \<and> (\<forall>r \<in> set (upsert data new). truthy (pyget r ''Link for video''))"
proof (cases "replace_first new data")
  case None
  then have "\<forall>r \<in> set data. pyget r ''Link for video'' \<noteq> pyget new ''Link for video''"
    using t by (auto simp: replace_first_None same_key_def)
  then show ?thesis using None t d n by (auto simp: upsert_def)
next
  case (Some data')
  from replace_first_links [OF Some t] d
  have "distinct (map (\<lambda>r. pyget r ''Link for video'') data')" by simp
  moreover have "\<forall>r \<in> set data'. truthy (pyget r ''Link for video'')"
  proof -
    have "set (map (\<lambda>r. pyget r ''Link for video'') data') = set (map (\<lambda>r. pyget r ''Link for video'') data)"
      using replace_first_links [OF Some t] by simp
    then show ?thesis using t by (metis (no_types, lifting) image_iff list.set_map)
  qed
  ultimately show ?thesis using Some by (simp add: upsert_def)
qed

lemma write_json_links:
  assumes "\<forall>r \<in> set data. truthy (pyget r ''Link for video'')"
    and "distinct (map (\<lambda>r. pyget r ''Link for video'') data)"
    and "\<forall>r \<in> set new_data. truthy (pyget r ''Link for video'')"
  shows "distinct (map (\<lambda>r. pyget r ''Link for video'') (write_json new_data data))
       \<and> (\<forall>r \<in> set (write_json new_data data). truthy (pyget r ''Link for video''))"
  using assms
proof (induction new_data arbitrary: data)
  case Nil
  then show ?case by (simp add: write_json_def)
next
  case (Cons new new_data)
  have "write_json (new # new_data) data = write_json new_data (upsert data new)"
    by (simp add: write_json_def)
  moreover from upsert_links [of data new] Cons.prems
  have "distinct (map (\<lambda>r. pyget r ''Link for video'') (upsert data new))"
    "\<forall>r \<in> set (upsert data new). truthy (pyget r ''Link for video'')" by simp_all
  ultimately show ?case using Cons.IH [of "upsert data new"] Cons.prems(3) by simp
qed

text \<open>
  C10, as amended. For each new record \<^verbatim>\<open>write_json\<close> replaces, where it stands, the first
  stored record in index order that passes the loop's test (a stored record with a link:
  the same link; a stored record without one: the same title); when no stored record
  passes, the new record is inserted at index 0. A write that replaces leaves the number
  of records as it was. When every stored and every new record has a link, stored links
  that are pairwise different stay so.
\<close>
theorem write_json_upserts:
  "(i < length data \<and> same_key new (data ! i) \<and> (\<forall>k < i. \<not> same_key new (data ! k))
      \<longrightarrow> write_json [new] data = data[i := new])
   \<and> ((\<forall>r \<in> set data. \<not> same_key new r) \<longrightarrow> write_json [new] data = new # data)
   \<and> ((\<exists>r \<in> set data. same_key new r) \<longrightarrow> length (write_json [new] data) = length data)
   \<and> ((\<forall>r \<in> set (data @ new_data). truthy (pyget r ''Link for video''))
        \<and> distinct (map (\<lambda>r. pyget r ''Link for video'') data)
      \<longrightarrow> distinct (map (\<lambda>r. pyget r ''Link for video'') (write_json new_data data)))"
proof (intro conjI impI)
  assume "i < length data \<and> same_key new (data ! i) \<and> (\<forall>k < i. \<not> same_key new (data ! k))"
  then have "replace_first new data = Some (data[i := new])"
    by (intro replace_first_Some) auto
  then show "write_json [new] data = data[i := new]"
    by (simp add: write_json_def upsert_def)
next
  assume "\<forall>r \<in> set data. \<not> same_key new r"
  then have "replace_first new data = None" by (simp add: replace_first_None)
  then show "write_json [new] data = new # data" by (simp add: write_json_def upsert_def)
next
  assume "\<exists>r \<in> set data. same_key new r"
  then obtain data' where "replace_first new data = Some data'"
    using replace_first_None [of new data] by (cases "replace_first new data") auto
  then show "length (write_json [new] data) = length data"
    by (simp add: write_json_def upsert_def replace_first_length)
next
  assume "(\<forall>r \<in> set (data @ new_data). truthy (pyget r ''Link for video''))
        \<and> distinct (map (\<lambda>r. pyget r ''Link for video'') data)"
  then show "distinct (map (\<lambda>r. pyget r ''Link for video'') (write_json new_data data))"
    using write_json_links [of data new_data] by simp
qed

text \<open>
  C10, the claim as stated fails. The store holds a record without a link and, after it, a
  record with the link of the new record; the new record has the title of the first. The
  first is replaced, not the one with the same link, and the store now has that link twice.
\<close>
theorem write_json_second_link:
  "write_json [relinked] [unlinked, linked] = [relinked, linked]
   \<and> pyget relinked ''Link for video'' = JStr ''https://site1/v/1''
   \<and> pyget linked ''Link for video'' = JStr ''https://site1/v/1''"
  by code_simp


theorem write_json_upserts_witness:
  "1 < length [other_linked, linked]
   \<and> same_key relinked ([other_linked, linked] ! 1)
   \<and> \<not> same_key relinked ([other_linked, linked] ! 0)
   \<and> write_json [relinked] [other_linked, linked] = [other_linked, relinked]
   \<and> length (write_json [relinked] [other_linked, linked]) = 2
   \<and> distinct (map (\<lambda>r. pyget r ''Link for video'') (write_json [relinked] [other_linked, linked]))
   \<and> \<not> same_key relinked other_linked
   \<and> write_json [relinked] [other_linked] = [relinked, other_linked]"
proof -
  let ?data = "[other_linked, linked]"
  have h1: "1 < length ?data \<and> same_key relinked (?data ! 1) \<and> (\<forall>k < 1. \<not> same_key relinked (?data ! k))"
    by (simp add: same_key_def pyget_def truthy_def relinked_def linked_def other_linked_def)
  have h3: "\<exists>r \<in> set ?data. same_key relinked r"
    by (simp add: same_key_def pyget_def truthy_def relinked_def linked_def other_linked_def)
  have h4: "(\<forall>r \<in> set (?data @ [relinked]). truthy (pyget r ''Link for video''))
        \<and> distinct (map (\<lambda>r. pyget r ''Link for video'') ?data)"
    by (simp add: pyget_def truthy_def relinked_def linked_def other_linked_def)
  have h2: "\<forall>r \<in> set [other_linked]. \<not> same_key relinked r"
    by (simp add: same_key_def pyget_def truthy_def relinked_def other_linked_def)
  from write_json_upserts [of 1 ?data relinked "[relinked]"] h1 h3 h4
  have "write_json [relinked] ?data = ?data[1 := relinked]"
    "length (write_json [relinked] ?data) = length ?data"
    "distinct (map (\<lambda>r. pyget r ''Link for video'') (write_json [relinked] ?data))"
    by blast+
  moreover from write_json_upserts [of 0 "[other_linked]" relinked "[]"] h2
  have "write_json [relinked] [other_linked] = [relinked, other_linked]" by blast
  ultimately show ?thesis using h1 h2 by simp
qed

section \<open>filters.py: duplicates\<close>













section \<open>filters.py: the age filter\<close>

lemma kept_rows_map: "kept_rows (map P data) data = filter P data"
  by (induction data) (simp_all add: kept_rows_def)

lemma collect_map_Inr: "collect (map (\<lambda>x. Inr (f x)) xs) = Inr (map f xs)"
  by (induction xs) simp_all

lemma similar_uploaded_readable:
  assumes "\<forall>f \<in> set uploaded. \<not> isl f"
  shows "similar_uploaded ratio title uploaded =
           Inr (\<exists>f \<in> set uploaded. \<exists>u \<in> set (projr f). 90 \<le> ratio title (pyget_str u ''Title''))"
  using assms
proof (induction uploaded)
  case Nil
  then show ?case by simp
next
  case (Cons f uploaded)
  then obtain recs where "f = Inr recs" by (cases f) auto
  with Cons show ?case by (auto simp: list_ex_iff)
qed

lemma too_old_iff:
  "too_old today record \<longleftrightarrow>
     (\<exists>s d. pyget_str record ''Date'' = JStr s \<and> s \<noteq> [] \<and> strptime_bdY s = Inr d \<and> d < today - 3 * day_us)"
  by (auto simp: too_old_def split: jval.splits sum.splits)

lemma strptime_bdY_midnight: "strptime_bdY s = Inr d \<Longrightarrow> d mod day_us = 0"
  by (auto simp: strptime_bdY_def Let_def split: sum.splits if_splits)

text \<open>
  The age filter with the five upload files readable: \<^verbatim>\<open>clean_older_than_3_days\<close> keeps the
  records, in their order, that are not dropped, and a record is dropped exactly when its
  \<^verbatim>\<open>Date\<close> is read by the format \<^verbatim>\<open>'%b %d, %Y'\<close> as a day before the day three days before today
  (so four days or more before today), or its title scores 90 or more with a title of a
  record of one of the files. A record whose \<^verbatim>\<open>Date\<close> is absent, None, empty or not of the
  format is not dropped for its date. In the example a record dated four days before today
  is dropped, records dated three and two days before are kept, as are one with a date that
  does not parse and one without a date; a record two days old whose title matches an
  uploaded title is dropped.
\<close>
lemma age_filter_drops:
  assumes readable: "\<forall>f \<in> set uploaded. \<not> isl f"
  shows "clean_older_than_3_days ratio today uploaded data =
           Inr (filter (\<lambda>record.
                  \<not> (too_old today record
                     \<or> (\<exists>f \<in> set uploaded. \<exists>u \<in> set (projr f).
                           90 \<le> ratio (pyget record ''Title'') (pyget_str u ''Title''))))
                data)
     \<and> (\<forall>record. too_old today record \<longleftrightarrow>
           (\<exists>s d. pyget_str record ''Date'' = JStr s \<and> s \<noteq> [] \<and> strptime_bdY s = Inr d
                  \<and> d < today - 3 * day_us))"
proof -
  let ?found = "\<lambda>record. \<exists>f \<in> set uploaded. \<exists>u \<in> set (projr f).
                           90 \<le> ratio (pyget record ''Title'') (pyget_str u ''Title'')"
  let ?keep = "\<lambda>record. \<not> (too_old today record \<or> ?found record)"
  have "(\<lambda>record. if too_old today record then Inr False
            else (case similar_uploaded ratio (pyget record ''Title'') uploaded of
                    Inl e \<Rightarrow> Inl e | Inr found \<Rightarrow> Inr (\<not> found)))
      = (\<lambda>record. Inr (?keep record))"
    by (rule ext) (simp add: similar_uploaded_readable [OF readable])
  then have "clean_older_than_3_days ratio today uploaded data = Inr (kept_rows (map ?keep data) data)"
    by (simp add: clean_older_than_3_days_def collect_map_Inr)
  then show ?thesis
    by (simp only: kept_rows_map too_old_iff) simp
qed


lemma age_filter_drops_example:
  "list_all (\<lambda>f. \<not> isl f) no_uploads
   \<and> clean_older_than_3_days score_99 jan_1 no_uploads
        [dated ''Old'' ''Dec 28, 2023'', dated ''Edge'' ''Dec 29, 2023'',
         dated ''Recent'' ''Dec 30, 2023'', dated ''Odd'' ''yesterday'', undated]
       = Inr [dated ''Edge'' ''Dec 29, 2023'', dated ''Recent'' ''Dec 30, 2023'',
              dated ''Odd'' ''yesterday'', undated]
   \<and> list_all (\<lambda>f. \<not> isl f) one_upload
   \<and> clean_older_than_3_days score_99 jan_1 one_upload [dated ''Recent'' ''Dec 30, 2023''] = Inr []"
proof -
  let ?data = "[dated ''Old'' ''Dec 28, 2023'', dated ''Edge'' ''Dec 29, 2023'',
         dated ''Recent'' ''Dec 30, 2023'', dated ''Odd'' ''yesterday'', undated]"
  have r1: "\<forall>f \<in> set no_uploads. \<not> isl f" by (simp add: no_uploads_def)
  have r2: "\<forall>f \<in> set one_upload. \<not> isl f" by (simp add: one_upload_def)
  have f1: "filter (\<lambda>record.
                  \<not> (too_old jan_1 record
                     \<or> (\<exists>f \<in> set no_uploads. \<exists>u \<in> set (projr f).
                           90 \<le> score_99 (pyget record ''Title'') (pyget_str u ''Title''))))
                ?data
      = [dated ''Edge'' ''Dec 29, 2023'', dated ''Recent'' ''Dec 30, 2023'',
              dated ''Odd'' ''yesterday'', undated]"
    by code_simp
  have f2: "filter (\<lambda>record.
                  \<not> (too_old jan_1 record
                     \<or> (\<exists>f \<in> set one_upload. \<exists>u \<in> set (projr f).
                           90 \<le> score_99 (pyget record ''Title'') (pyget_str u ''Title''))))
                [dated ''Recent'' ''Dec 30, 2023'']
      = []"
    by code_simp
  note e1 = age_filter_drops [OF r1, of score_99 jan_1 ?data, THEN conjunct1]
  note e2 = age_filter_drops [OF r2, of score_99 jan_1 "[dated ''Recent'' ''Dec 30, 2023'']", THEN conjunct1]
  have a: "clean_older_than_3_days score_99 jan_1 no_uploads ?data
       = Inr [dated ''Edge'' ''Dec 29, 2023'', dated ''Recent'' ''Dec 30, 2023'',
              dated ''Odd'' ''yesterday'', undated]"
    by (rule trans [OF e1]) (simp only: f1)
  have b: "clean_older_than_3_days score_99 jan_1 one_upload [dated ''Recent'' ''Dec 30, 2023''] = Inr []"
    by (rule trans [OF e2]) (simp only: f2)
  from a b r1 r2 show ?thesis by (simp add: list_all_iff)
qed

lemma similar_uploaded_raises:
  assumes "\<exists>f \<in> set uploaded. isl f"
  shows "\<exists>e. similar_uploaded ratio title uploaded = Inl e \<and> Inl e \<in> set uploaded"
  using assms
proof (induction uploaded)
  case Nil
  then show ?case by simp
next
  case (Cons f uploaded)
  show ?case
  proof (cases f)
    case (Inl e)
    then show ?thesis by simp
  next
    case (Inr recs)
    with Cons.prems have "\<exists>f \<in> set uploaded. isl f" by simp
    from Cons.IH [OF this] Inr show ?thesis by auto
  qed
qed

text \<open>
  C8 (the code departs from the claim). The claim has a record kept unless its date is more
  than three days old or its title matches an uploaded title. The code reads the upload
  files of the five days before today with \<^verbatim>\<open>read_json\<close>, once for every record that is not
  dropped for its date, and \<^verbatim>\<open>read_json\<close> opens the file without a test that it is there, where
  the store of today's uploads is created when it is missing. When one of the five files
  cannot be read and some record is not dropped for its date, \<^verbatim>\<open>clean_older_than_3_days\<close>
  raises the error of that file and returns no list: in the example a record dated two days
  before today, with the file of one of the days missing, is not kept.
\<close>
theorem missing_upload_file_raises:
  assumes missing: "\<exists>f \<in> set uploaded. isl f"
    and recent: "\<exists>record \<in> set data. \<not> too_old today record"
  shows "\<exists>e. clean_older_than_3_days ratio today uploaded data = Inl e \<and> Inl e \<in> set uploaded"
proof -
  let ?row = "\<lambda>record. if too_old today record then Inr False
                     else (case similar_uploaded ratio (pyget record ''Title'') uploaded of
                             Inl e \<Rightarrow> Inl e
                           | Inr found \<Rightarrow> Inr (\<not> found))"
  from recent have "\<exists>e. collect (map ?row data) = Inl e \<and> Inl e \<in> set uploaded"
  proof (induction data)
    case Nil
    then show ?case by simp
  next
    case (Cons r data)
    show ?case
    proof (cases "too_old today r")
      case True
      with Cons.prems have "\<exists>record \<in> set data. \<not> too_old today record" by simp
      from Cons.IH [OF this] True show ?thesis by auto
    next
      case False
      from similar_uploaded_raises [OF missing, of ratio "pyget r ''Title''"] False
      show ?thesis by auto
    qed
  qed
  then show ?thesis by (auto simp: clean_older_than_3_days_def)
qed

theorem missing_upload_file_raises_witness:
  "list_ex isl missing_upload
   \<and> list_ex (\<lambda>record. \<not> too_old jan_1 record) [dated ''Recent'' ''Dec 30, 2023'']
   \<and> clean_older_than_3_days equal_score jan_1 missing_upload [dated ''Recent'' ''Dec 30, 2023'']
       = Inl FileNotFoundError
   \<and> clean_older_than_3_days equal_score jan_1 no_uploads [dated ''Recent'' ''Dec 30, 2023'']
       = Inr [dated ''Recent'' ''Dec 30, 2023'']"
proof -
  have m: "list_ex isl missing_upload" by code_simp
  have r: "list_ex (\<lambda>record. \<not> too_old jan_1 record) [dated ''Recent'' ''Dec 30, 2023'']"
    by code_simp
  have k: "clean_older_than_3_days equal_score jan_1 no_uploads [dated ''Recent'' ''Dec 30, 2023'']
       = Inr [dated ''Recent'' ''Dec 30, 2023'']" by code_simp
  from missing_upload_file_raises [OF m [unfolded list_ex_iff] r [unfolded list_ex_iff],
      of equal_score]
  obtain e where e: "clean_older_than_3_days equal_score jan_1 missing_upload
      [dated ''Recent'' ''Dec 30, 2023''] = Inl e" "Inl e \<in> set missing_upload"
    by (elim exE conjE) (rule that)
  from e(2) have "e = FileNotFoundError" by (auto simp: missing_upload_def)
  with e(1) m r k show ?thesis by (simp only: simp_thms)
qed

section \<open>filters.py: applying the filters\<close>

text \<open>
  C2, as amended. When every record of the daily store is empty or has a \<^verbatim>\<open>Link for video\<close>
  value that is the value of some record of the filtered store, \<^verbatim>\<open>apply_filters()\<close> writes
  nothing and the filtered store is as it was, whatever the filters would do. So a second
  call on the same daily store changes nothing when every daily record is represented in
  the store the first call left.
\<close>
theorem nothing_new_no_write:
  "((\<forall>item \<in> set daily.
       item = [] \<or> pyget item ''Link for video'' \<in> set (map (\<lambda>r. pyget r ''Link for video'') flt))
      \<longrightarrow> apply_filters e (Some daily) (Some flt) = Inr None
          \<and> store_after flt None = flt)
   \<and> (apply_filters e (Some daily) (Some flt) = Inr written
        \<and> (\<forall>item \<in> set daily.
              item = [] \<or> pyget item ''Link for video''
                             \<in> set (map (\<lambda>r. pyget r ''Link for video'') (store_after flt written)))
      \<longrightarrow> apply_filters e (Some daily) (Some (store_after flt written)) = Inr None)"
proof -
  have none: "apply_filters e (Some daily) (Some s) = Inr None"
    if "\<forall>item \<in> set daily.
          item = [] \<or> pyget item ''Link for video'' \<in> set (map (\<lambda>r. pyget r ''Link for video'') s)"
    for s
  proof -
    from that have "filter (\<lambda>item. pyget item ''Link for video''
                                 \<notin> set (map (\<lambda>item. pyget item ''Link for video'') s) \<and> item \<noteq> [])
                      daily = []"
      by (auto simp: filter_empty_conv)
    then show ?thesis by (simp add: apply_filters_def Let_def)
  qed
  show ?thesis using none by (simp add: store_after_def)
qed

theorem nothing_new_no_write_witness:
  "list_all (\<lambda>item. item = [] \<or> pyget item ''Link for video''
                       \<in> set (map (\<lambda>r. pyget r ''Link for video'') [video_2, video_1]))
            [video_1, [], video_2]
   \<and> apply_filters plain_env (Some [video_1, [], video_2]) (Some [video_2, video_1]) = Inr None
   \<and> apply_filters plain_env (Some [video_1]) (Some [])
       = Inr (Some [pyset ''Link for promo'' JNull video_1])
   \<and> apply_filters plain_env (Some [video_1]) (Some [pyset ''Link for promo'' JNull video_1])
       = Inr None"
proof -
  have h1: "\<forall>item \<in> set [video_1, [], video_2].
       item = [] \<or> pyget item ''Link for video''
                      \<in> set (map (\<lambda>r. pyget r ''Link for video'') [video_2, video_1])"
    by (simp add: pyget_def video_1_def video_2_def)
  have first: "apply_filters plain_env (Some [video_1]) (Some [])
       = Inr (Some [pyset ''Link for promo'' JNull video_1])"
    by code_simp
  have h2: "\<forall>item \<in> set [video_1].
       item = [] \<or> pyget item ''Link for video''
                      \<in> set (map (\<lambda>r. pyget r ''Link for video'')
                               (store_after [] (Some [pyset ''Link for promo'' JNull video_1])))"
    by (simp add: pyget_def pyset_def store_after_def video_1_def)
  from nothing_new_no_write [of "[video_1, [], video_2]" "[video_2, video_1]" plain_env] h1
  have a: "apply_filters plain_env (Some [video_1, [], video_2]) (Some [video_2, video_1]) = Inr None"
    by blast
  from nothing_new_no_write [of "[video_1]" "[]" plain_env "Some [pyset ''Link for promo'' JNull video_1]"]
    first h2
  have "apply_filters plain_env (Some [video_1])
          (Some (store_after [] (Some [pyset ''Link for promo'' JNull video_1]))) = Inr None"
    by blast
  then have b: "apply_filters plain_env (Some [video_1]) (Some [pyset ''Link for promo'' JNull video_1])
       = Inr None"
    by (simp add: store_after_def)
  from a b first h1 show ?thesis by (simp add: list_all_iff)
qed

text \<open>
  C2, the claim as stated fails. Two records of different links have the same title. The
  first call drops the second as a duplicate of the first and writes the first. The dropped
  record is not in the filtered store, so the second call takes it as new, filters it alone
  and writes it: the store after the second call is not the store after the first.
\<close>
theorem second_call_writes_dropped_duplicate:
  "apply_filters plain_env (Some [video_1, video_2]) (Some [])
     = Inr (Some [pyset ''Link for promo'' JNull video_1])
   \<and> apply_filters plain_env (Some [video_1, video_2]) (Some [pyset ''Link for promo'' JNull video_1])
     = Inr (Some [pyset ''Link for promo'' JNull video_2, pyset ''Link for promo'' JNull video_1])
   \<and> [pyset ''Link for promo'' JNull video_2, pyset ''Link for promo'' JNull video_1]
       \<noteq> [pyset ''Link for promo'' JNull video_1]"
  by code_simp

end
